theory Spec2Isabelle
  imports Complex_Main
begin

section \<open>JavaScript numbers\<close>

text \<open>
  The program computes with JavaScript numbers. They are modelled as the real numbers
  extended by the three special values of the language, so that a division by zero, a
  logarithm of zero and an unparsable number take the branch the program takes.
  Two idealisations remain: arithmetic on finite values is exact (no rounding to
  binary64), and the sign of zero is not recorded.
\<close>

datatype jsnum = Finite real | Infinity | NegInfinity | NaN

fun jadd :: "jsnum \<Rightarrow> jsnum \<Rightarrow> jsnum" where
  "jadd NaN y = NaN"
| "jadd x NaN = NaN"
| "jadd (Finite a) (Finite b) = Finite (a + b)"
| "jadd (Finite a) y = y"
| "jadd x (Finite b) = x"
| "jadd Infinity Infinity = Infinity"
| "jadd NegInfinity NegInfinity = NegInfinity"
| "jadd Infinity NegInfinity = NaN"
| "jadd NegInfinity Infinity = NaN"

fun jneg :: "jsnum \<Rightarrow> jsnum" where
  "jneg (Finite a) = Finite (- a)"
| "jneg Infinity = NegInfinity"
| "jneg NegInfinity = Infinity"
| "jneg NaN = NaN"

definition jsub :: "jsnum \<Rightarrow> jsnum \<Rightarrow> jsnum" where
  "jsub x y = jadd x (jneg y)"

text \<open>The sign of an infinite product or quotient: \<open>signed_inf True\<close> is \<open>+Infinity\<close>.\<close>

definition signed_inf :: "bool \<Rightarrow> jsnum" where
  "signed_inf pos = (if pos then Infinity else NegInfinity)"

fun jmul :: "jsnum \<Rightarrow> jsnum \<Rightarrow> jsnum" where
  "jmul NaN y = NaN"
| "jmul x NaN = NaN"
| "jmul (Finite a) (Finite b) = Finite (a * b)"
| "jmul (Finite a) Infinity = (if a = 0 then NaN else signed_inf (0 < a))"
| "jmul (Finite a) NegInfinity = (if a = 0 then NaN else signed_inf (a < 0))"
| "jmul Infinity (Finite b) = (if b = 0 then NaN else signed_inf (0 < b))"
| "jmul NegInfinity (Finite b) = (if b = 0 then NaN else signed_inf (b < 0))"
| "jmul Infinity Infinity = Infinity"
| "jmul NegInfinity NegInfinity = Infinity"
| "jmul Infinity NegInfinity = NegInfinity"
| "jmul NegInfinity Infinity = NegInfinity"

fun jdiv :: "jsnum \<Rightarrow> jsnum \<Rightarrow> jsnum" where
  "jdiv NaN y = NaN"
| "jdiv x NaN = NaN"
| "jdiv (Finite a) (Finite b) =
     (if b = 0 then (if a = 0 then NaN else signed_inf (0 < a)) else Finite (a / b))"
| "jdiv (Finite a) y = Finite 0"
| "jdiv Infinity (Finite b) = signed_inf (0 \<le> b)"
| "jdiv NegInfinity (Finite b) = signed_inf (b < 0)"
| "jdiv x y = NaN"

text \<open>\<open>Math.floor\<close>, \<open>Math.ceil\<close>, \<open>Math.round\<close> (halves go up) and \<open>Math.log2\<close>.\<close>

fun jfloor :: "jsnum \<Rightarrow> jsnum" where
  "jfloor (Finite a) = Finite (of_int \<lfloor>a\<rfloor>)"
| "jfloor x = x"

fun jceil :: "jsnum \<Rightarrow> jsnum" where
  "jceil (Finite a) = Finite (of_int \<lceil>a\<rceil>)"
| "jceil x = x"

fun jround :: "jsnum \<Rightarrow> jsnum" where
  "jround (Finite a) = Finite (of_int \<lfloor>a + 1 / 2\<rfloor>)"
| "jround x = x"

fun jlog2 :: "jsnum \<Rightarrow> jsnum" where
  "jlog2 (Finite a) = (if a < 0 then NaN else if a = 0 then NegInfinity else Finite (log 2 a))"
| "jlog2 Infinity = Infinity"
| "jlog2 x = NaN"

text \<open>The comparisons: each of them is false as soon as one side is \<open>NaN\<close>.\<close>

fun jlt :: "jsnum \<Rightarrow> jsnum \<Rightarrow> bool" where
  "jlt NaN y = False"
| "jlt x NaN = False"
| "jlt (Finite a) (Finite b) = (a < b)"
| "jlt x NegInfinity = False"
| "jlt Infinity y = False"
| "jlt x Infinity = True"
| "jlt NegInfinity y = True"

text \<open>Strict equality \<open>===\<close> and its negation \<open>!==\<close> on numbers.\<close>

definition jeq :: "jsnum \<Rightarrow> jsnum \<Rightarrow> bool" where
  "jeq x y = (x \<noteq> NaN \<and> y \<noteq> NaN \<and> x = y)"

definition jne :: "jsnum \<Rightarrow> jsnum \<Rightarrow> bool" where
  "jne x y = (\<not> jeq x y)"

definition jle :: "jsnum \<Rightarrow> jsnum \<Rightarrow> bool" where
  "jle x y = (jlt x y \<or> jeq x y)"

definition jgt :: "jsnum \<Rightarrow> jsnum \<Rightarrow> bool" where
  "jgt x y = jlt y x"

definition jge :: "jsnum \<Rightarrow> jsnum \<Rightarrow> bool" where
  "jge x y = jle y x"

text \<open>\<open>Math.min\<close> of two numbers; \<open>Math.min(a, b, c)\<close> is \<open>jmin a (jmin b c)\<close>.\<close>

definition jmin :: "jsnum \<Rightarrow> jsnum \<Rightarrow> jsnum" where
  "jmin x y = (if x = NaN \<or> y = NaN then NaN else if jlt y x then y else x)"

text \<open>A number in a condition: \<open>0\<close> and \<open>NaN\<close> count as false.\<close>

fun truthy :: "jsnum \<Rightarrow> bool" where
  "truthy (Finite a) = (a \<noteq> 0)"
| "truthy NaN = False"
| "truthy x = True"

text \<open>An optional number in a condition: \<open>undefined\<close> counts as false.\<close>

fun truthy_opt :: "jsnum option \<Rightarrow> bool" where
  "truthy_opt None = False"
| "truthy_opt (Some x) = truthy x"

text \<open>\<open>String.prototype.startsWith\<close>.\<close>

definition startsWith :: "string \<Rightarrow> string \<Rightarrow> bool" where
  "startsWith s p = (take (length p) s = p)"

section \<open>The data model\<close>

text \<open>
  Modelled from the spec: the type declarations of \<open>./video\<close> (\<open>ContainerFormat\<close>,
  \<open>VideoFormat\<close>, \<open>AudioFormat\<close> and \<open>Format\<close>), which are imported by every source file
  and are not among them. The records hold the fields of the data model, which are also
  the fields that the object literals of the sources write and that their expressions
  read; a field that some literal leaves out is optional. A \<open>Format\<close> always has its
  container and its video stream (the analysis refuses anything else), while its audio
  stream may be missing; the accumulator of the analysis, \<open>Partial<Format>\<close>, may miss
  all three. \<open>Resolution\<close> is declared in the sources.
\<close>

record ContainerFormat =
  duration :: jsnum
  start :: jsnum

record VideoFormat =
  preset :: "string option"
  implausible :: "bool option"
  original :: "bool option"
  codec :: string
  color :: string
  width :: jsnum
  height :: jsnum
  rotation :: "jsnum option"
  bitrate :: "jsnum option"
  crf :: "jsnum option"
  fps :: jsnum
  expectedSize :: "jsnum option"

record AudioFormat =
  preset_a :: "string option"
  original_a :: "bool option"
  codec_a :: string
  sampleRate :: jsnum
  channelSetup :: string
  bitrate_a :: jsnum
  expectedSize_a :: "jsnum option"

record Format =
  container :: ContainerFormat
  video :: VideoFormat
  audio :: "AudioFormat option"

record PartialFormat =
  container_p :: "ContainerFormat option"
  video_p :: "VideoFormat option"
  audio_p :: "AudioFormat option"

record Resolution =
  width_r :: jsnum
  height_r :: jsnum
  fps_r :: jsnum
  expectedWidth :: jsnum
  expectedHeight :: jsnum

datatype error =
    TypeError
  | CouldNotAnalyze
  | NoRateControl
  | UnsupportedVideoCodec string

section \<open>The catalog of audio formats\<close>

text \<open>
  \<open>getAudioFormats\<close> reads \<open>source.audio.codec\<close> without a test: on a source without
  an audio record the read is a \<open>TypeError\<close>.
\<close>

definition getAudioFormats :: "Format \<Rightarrow> error + AudioFormat list" where
  "getAudioFormats source =
    (let options = [\<lparr>preset_a = Some ''none'', original_a = None, codec_a = ''none'',
                      sampleRate = Finite 0, channelSetup = ''none'', bitrate_a = Finite 0,
                      expectedSize_a = None\<rparr>]
     in case audio source of
          None \<Rightarrow> Inl TypeError
        | Some a \<Rightarrow>
            if codec_a a = ''none'' then Inr options
            else
              let options = options @
                    [\<lparr>preset_a = Some ''bitrate_low'', original_a = None,
                      codec_a = ''aac (HE-AACv2)'',
                      sampleRate = (if jeq (sampleRate a) (Finite 44100)
                                    then Finite 44100 else Finite 48000),
                      channelSetup = ''stereo'', bitrate_a = Finite 32,
                      expectedSize_a = None\<rparr>];
                  originalSuitable =
                    (startsWith (codec_a a) ''aac'' \<and> jlt (bitrate_a a) (Finite 260))
              in if originalSuitable
                 then Inr (options @ [a\<lparr>preset_a := Some ''bitrate_high''\<rparr>])
                 else Inr (options @
                    [\<lparr>preset_a = Some ''bitrate_high'', original_a = None,
                      codec_a = ''aac (LC)'',
                      sampleRate = (if jeq (sampleRate a) (Finite 44100)
                                    then Finite 44100 else Finite 48000),
                      channelSetup = ''stereo'', bitrate_a = Finite 192,
                      expectedSize_a = None\<rparr>]))"

section \<open>Progress of a conversion\<close>

text \<open>
  \<open>convertVideo\<close> subscribes to the worker's progress with a handler that calls the
  caller's \<open>onProgress\<close>; \<open>progressValue ratio\<close> is the number it passes on.
\<close>

definition progressValue :: "jsnum \<Rightarrow> jsnum" where
  "progressValue ratio =
    (if jge ratio (Finite 0) \<and> jle ratio (Finite 1) then jmul ratio (Finite 100) else Finite 0)"

section \<open>Resolutions\<close>

definition createResolution :: "Format \<Rightarrow> jsnum \<Rightarrow> jsnum \<Rightarrow> jsnum \<Rightarrow> Resolution" where
  "createResolution source w h f =
    (let scaleFactor = jmin (Finite 1) (jmin (jdiv w (width (video source)))
                                             (jdiv h (height (video source))))
     in \<lparr>width_r = jmul (jround (jdiv (jmul (width (video source)) scaleFactor) (Finite 2)))
                         (Finite 2),
         height_r = jmul (jround (jdiv (jmul (height (video source)) scaleFactor) (Finite 2)))
                         (Finite 2),
         fps_r = f,
         expectedWidth = w,
         expectedHeight = h\<rparr>)"


text \<open>
  The encoded size of an h264 stream, estimated. \<open>crf ** 2\<close> is the product of \<open>crf\<close>
  with itself.
\<close>

definition estimateH264Size :: "Resolution \<Rightarrow> jsnum \<Rightarrow> jsnum \<Rightarrow> jsnum" where
  "estimateH264Size res crf0 duration0 =
    jfloor (jdiv (jdiv (jmul (jmul (jmul (width_r res) (height_r res)) duration0)
                             (jlog2 (fps_r res)))
                       (Finite 20))
                 (jmul crf0 crf0))"

text \<open>
  \<open>Array.prototype.filter\<close> hands the element, its index and the whole array to the
  predicate. \<open>filterSensibleResolutions\<close> looks at the next element: past the end of
  the array it finds \<open>undefined\<close>, which differs from every number.
\<close>

definition array_filter :: "('a \<Rightarrow> nat \<Rightarrow> 'a list \<Rightarrow> bool) \<Rightarrow> 'a list \<Rightarrow> 'a list" where
  "array_filter p xs = map fst (filter (\<lambda>(x, i). p x i xs) (zip xs [0..<length xs]))"

definition filterSensibleResolutions :: "Resolution \<Rightarrow> nat \<Rightarrow> Resolution list \<Rightarrow> bool" where
  "filterSensibleResolutions res index list =
    (if Suc index < length list then jne (width_r (list ! Suc index)) (width_r res) else True)"

section \<open>Arrays of resolutions\<close>

text \<open>
  A ladder of resolutions is a JavaScript array, passed by reference:
  \<open>Array.prototype.reverse\<close> reverses the array itself and returns it.
  The store maps the reference of each array to its elements.
\<close>

type_synonym ref = nat
type_synonym store = "ref \<Rightarrow> Resolution list"

definition array_reverse :: "ref \<Rightarrow> store \<Rightarrow> store" where
  "array_reverse r h = h(r := rev (h r))"

section \<open>The catalog of video formats\<close>

text \<open>
  The conversion of a number to a string (in the template strings of the presets and in
  the arguments of the encoder) depends on the binary representation of the number: it is
  the parameter \<open>toStr\<close> of the functions that print numbers.
\<close>

text \<open>A loop that pushes one option for each element and stops at the first exception.\<close>

fun collect :: "('a \<Rightarrow> error + 'b) \<Rightarrow> 'a list \<Rightarrow> error + 'b list" where
  "collect f [] = Inr []"
| "collect f (x # xs) =
     (case f x of
        Inl e \<Rightarrow> Inl e
      | Inr y \<Rightarrow> (case collect f xs of Inl e \<Rightarrow> Inl e | Inr ys \<Rightarrow> Inr (y # ys)))"

text \<open>
  The option pushed when no resolution fits or the bitrate is too low. The last element
  of an empty array is \<open>undefined\<close>, and reading its width is a \<open>TypeError\<close>.
\<close>

definition implausibleTarget ::
  "(jsnum \<Rightarrow> string) \<Rightarrow> Format \<Rightarrow> Resolution list \<Rightarrow> jsnum \<Rightarrow> jsnum \<Rightarrow> error + VideoFormat" where
  "implausibleTarget toStr source resolutions totalSizeTarget bitrateTarget =
    (case resolutions of
       [] \<Rightarrow> Inl TypeError
     | _ # _ \<Rightarrow>
         let worst = last resolutions
         in Inr \<lparr>preset = Some (''size_'' @ toStr (jdiv totalSizeTarget (Finite 1000)) @ ''mb''),
                 implausible = Some True,
                 original = None,
                 codec = ''h264 (High)'',
                 color = ''yuv420p'',
                 width = width_r worst,
                 height = height_r worst,
                 rotation = Some (Finite 0),
                 bitrate = Some (jfloor bitrateTarget),
                 crf = None,
                 fps = jdiv (fps (video source))
                            (jceil (jdiv (fps (video source)) (fps_r worst))),
                 expectedSize = None\<rparr>)"

text \<open>
  The test \<open>originalSuitable\<close> of \<open>videoFileSizeTargets\<close>, for the size target that is
  left after the cap; a bitrate that is \<open>undefined\<close> fails it.
\<close>

definition sizeOriginalSuitable :: "Format \<Rightarrow> jsnum \<Rightarrow> bool" where
  "sizeOriginalSuitable source sizeTarget =
    (startsWith (codec (video source)) ''h264'' \<and>
     color (video source) = ''yuv420p'' \<and>
     jle (width (video source)) (Finite 1920) \<and>
     jle (height (video source)) (Finite 1080) \<and>
     jle (fps (video source)) (Finite 60) \<and>
     (case bitrate (video source) of
        None \<Rightarrow> False
      | Some b \<Rightarrow> jle (jdiv (jmul b (duration (container source))) (Finite 6)) sizeTarget))"

text \<open>The body of the loop of \<open>videoFileSizeTargets\<close>, for one total size.\<close>

definition videoFileSizeTarget ::
  "(jsnum \<Rightarrow> string) \<Rightarrow> Format \<Rightarrow> Resolution list \<Rightarrow> jsnum \<Rightarrow> error + VideoFormat" where
  "videoFileSizeTarget toStr source resolutions totalSizeTarget =
    (let audioBitrate =
           (case audio source of
              None \<Rightarrow> Finite 0
            | Some a \<Rightarrow> if truthy (bitrate_a a) then bitrate_a a else Finite 0);
         sizeTarget = jmul totalSizeTarget (Finite (88 / 100));
         bitrateTarget =
           jsub (jdiv (jmul sizeTarget (Finite 8)) (duration (container source))) audioBitrate;
         found = find (\<lambda>res. jge sizeTarget
                   (estimateH264Size res (Finite 28) (duration (container source)))) resolutions
     in case found of
          None \<Rightarrow> implausibleTarget toStr source resolutions totalSizeTarget bitrateTarget
        | Some resolution \<Rightarrow>
            if jlt bitrateTarget (Finite 100)
            then implausibleTarget toStr source resolutions totalSizeTarget bitrateTarget
            else
              let maxSize = estimateH264Size resolution (Finite 18) (duration (container source));
                  maxBitrate = jdiv (jmul maxSize (Finite 8)) (duration (container source));
                  capped = jlt maxBitrate bitrateTarget;
                  sizeTarget = (if capped then maxSize else sizeTarget);
                  bitrateTarget = (if capped then maxBitrate else bitrateTarget);
                  originalSuitable = sizeOriginalSuitable source sizeTarget
              in if originalSuitable
                 then Inr ((video source)
                        \<lparr>preset := Some (''size_'' @ toStr (jdiv totalSizeTarget (Finite 1000))
                                          @ ''mb''),
                         original := Some True\<rparr>)
                 else Inr
                       \<lparr>preset = Some (''size_'' @ toStr (jdiv totalSizeTarget (Finite 1000))
                                         @ ''mb''),
                        implausible = None,
                        original = None,
                        codec = ''h264 (High)'',
                        color = ''yuv420p'',
                        width = width_r resolution,
                        height = height_r resolution,
                        rotation = Some (Finite 0),
                        bitrate = Some (jfloor bitrateTarget),
                        crf = None,
                        fps = jdiv (fps (video source))
                                   (jceil (jdiv (fps (video source)) (fps_r resolution))),
                        expectedSize = None\<rparr>)"

text \<open>\<open>videoFileSizeTargets\<close> reads the array behind \<open>resolutions\<close> and leaves it as it is.\<close>

definition videoFileSizeTargets ::
  "(jsnum \<Rightarrow> string) \<Rightarrow> Format \<Rightarrow> ref \<Rightarrow> store \<Rightarrow> error + VideoFormat list" where
  "videoFileSizeTargets toStr source resolutions h =
    collect (videoFileSizeTarget toStr source (h resolutions))
      [Finite 8000, Finite 16000, Finite 50000]"

text \<open>The test \<open>originalSuitable\<close> of \<open>videoResolutionTargets\<close>.\<close>

definition resolutionOriginalSuitable :: "Format \<Rightarrow> Resolution \<Rightarrow> bool" where
  "resolutionOriginalSuitable source resolution =
    (startsWith (codec (video source)) ''h264'' \<and>
     color (video source) = ''yuv420p'' \<and>
     jle (width (video source)) (jmul (width_r resolution) (Finite (3 / 2))) \<and>
     jle (height (video source)) (jmul (height_r resolution) (Finite (3 / 2))) \<and>
     jle (fps (video source)) (Finite 60) \<and>
     (case bitrate (video source) of
        None \<Rightarrow> False
      | Some b \<Rightarrow>
          jle (jdiv (jmul b (duration (container source))) (Finite 8))
              (estimateH264Size resolution (Finite 18) (duration (container source)))))"

text \<open>The body of the loop of \<open>videoResolutionTargets\<close>.\<close>

definition videoResolutionTarget ::
  "(jsnum \<Rightarrow> string) \<Rightarrow> Format \<Rightarrow> Resolution \<Rightarrow> VideoFormat" where
  "videoResolutionTarget toStr source resolution =
    (let originalSuitable = resolutionOriginalSuitable source resolution
     in if originalSuitable
        then (video source)
               \<lparr>preset := Some (''crf_'' @ toStr (expectedHeight resolution) @ ''p''),
                original := Some originalSuitable\<rparr>
        else \<lparr>preset = Some (''crf_'' @ toStr (expectedHeight resolution) @ ''p''),
              implausible = None,
              original = Some originalSuitable,
              codec = ''h264 (High)'',
              color = ''yuv420p'',
              width = width_r resolution,
              height = height_r resolution,
              rotation = Some (Finite 0),
              bitrate = None,
              crf = Some (Finite 21),
              fps = jdiv (fps (video source))
                         (jceil (jdiv (fps (video source)) (fps_r resolution))),
              expectedSize = None\<rparr>)"

text \<open>
  \<open>videoResolutionTargets\<close> and \<open>videoGifTargets\<close> loop over \<open>resolutions.reverse()\<close>:
  they return their options together with the store, in which the array is reversed.
\<close>

definition videoResolutionTargets ::
  "(jsnum \<Rightarrow> string) \<Rightarrow> Format \<Rightarrow> ref \<Rightarrow> store \<Rightarrow> VideoFormat list \<times> store" where
  "videoResolutionTargets toStr source resolutions h =
    (let h' = array_reverse resolutions h
     in (map (videoResolutionTarget toStr source) (h' resolutions), h'))"

definition videoGifTarget :: "(jsnum \<Rightarrow> string) \<Rightarrow> Resolution \<Rightarrow> VideoFormat" where
  "videoGifTarget toStr resolution =
    \<lparr>preset = Some (''gif_'' @ toStr (expectedHeight resolution) @ ''p''),
     implausible = None,
     original = None,
     codec = ''gif'',
     color = ''bgra'',
     width = width_r resolution,
     height = height_r resolution,
     rotation = Some (Finite 0),
     bitrate = None,
     crf = None,
     fps = jdiv (Finite 100) (Finite 6),
     expectedSize = None\<rparr>"

definition videoGifTargets ::
  "(jsnum \<Rightarrow> string) \<Rightarrow> Format \<Rightarrow> ref \<Rightarrow> store \<Rightarrow> VideoFormat list \<times> store" where
  "videoGifTargets toStr source resolutions h =
    (let h' = array_reverse resolutions h
     in (map (videoGifTarget toStr) (h' resolutions), h'))"

text \<open>
  \<open>getVideoFormats\<close> builds its three ladders as fresh arrays (the references 0, 1 and 2
  of a store of its own) and concatenates the three families; an exception of the first
  family leaves the function before the other two run.
\<close>

definition roughResolutions :: "Format \<Rightarrow> Resolution list" where
  "roughResolutions source =
    array_filter filterSensibleResolutions
      [createResolution source (Finite 1280) (Finite 720) (Finite 30),
       createResolution source (Finite 640) (Finite 480) (Finite 30)]"

definition fineResolutions :: "Format \<Rightarrow> Resolution list" where
  "fineResolutions source =
    array_filter filterSensibleResolutions
      [createResolution source (Finite 1280) (Finite 720) (Finite 30),
       createResolution source (Finite 854) (Finite 480) (Finite 30),
       createResolution source (Finite 640) (Finite 360) (Finite 30),
       createResolution source (Finite 426) (Finite 240) (Finite 30)]"

definition gifResolutions :: "Format \<Rightarrow> Resolution list" where
  "gifResolutions source = [createResolution source (Finite 600) (Finite 600) (Finite 30)]"

definition getVideoFormats :: "(jsnum \<Rightarrow> string) \<Rightarrow> Format \<Rightarrow> error + VideoFormat list" where
  "getVideoFormats toStr source =
    (let h0 = (\<lambda>_. []);
         h1 = h0(0 := roughResolutions source);
         h2 = h1(1 := fineResolutions source);
         h3 = h2(2 := gifResolutions source)
     in case videoFileSizeTargets toStr source 1 h3 of
          Inl e \<Rightarrow> Inl e
        | Inr sizes \<Rightarrow>
            let (gifs, h4) = videoGifTargets toStr source 2 h3;
                (crfs, h5) = videoResolutionTargets toStr source 0 h4
            in Inr (sizes @ gifs @ crfs))"

section \<open>The arguments of the encoder\<close>

text \<open>
  \<open>videoArguments\<close> is total on the part of its input that a \<open>Format\<close> can hold: the
  test \<open>!format.video\<close> is false for every \<open>Format\<close>.
\<close>

definition videoArguments :: "(jsnum \<Rightarrow> string) \<Rightarrow> Format \<Rightarrow> Format \<Rightarrow> error + string list" where
  "videoArguments toStr metadata format =
    (if codec (video format) = ''none'' then Inr [''-vn'']
     else
       let args = [''-pix_fmt:v'', color (video format), ''-sws_flags'', ''bilinear''];
           args = args @
             (if jne (width (video format)) (width (video metadata)) \<or>
                 jne (height (video format)) (height (video metadata))
              then [''-s:v'', toStr (width (video format)) @ ''x'' @ toStr (height (video format))]
              else []);
           args = args @
             (if jgt (fps (video metadata)) (fps (video format))
              then [''-r:v'', toStr (fps (video format))]
              else [])
       in if startsWith (codec (video format)) ''h264''
          then
            let args = args @ [''-c:v'', ''libx264'', ''-preset:v'', ''fast'', ''-profile:v'', ''high'']
            in if truthy_opt (crf (video format))
               then Inr (args @ [''-crf:v'', toStr (the (crf (video format)))])
               else if truthy_opt (bitrate (video format))
               then Inr (args @ [''-b:v'', toStr (the (bitrate (video format))) @ ''k''])
               else Inl NoRateControl
          else Inl (UnsupportedVideoCodec (codec (video format))))"

section \<open>Regular expressions\<close>

text \<open>
  The analysis reads the log of the encoder with three regular expressions. They are
  kept as syntax trees and run by a backtracking matcher in the style of the language
  definition: a matcher takes the rest of the input with the captures found so far, and a
  continuation that says whether the rest of the pattern matches. Quantifiers are greedy,
  an alternative is tried only after the one before it has failed, and an iteration of a
  quantifier that has a lower bound of zero and consumes nothing is refused.
  Characters are the code units of the message below 256, so that the white space of the
  class \<open>\S\<close> is the white space of that range, the no-break space \<open>0xA0\<close> included.
\<close>

datatype charclass = Digit | DigitOrDot | NoneOf string | NonSpace | AnyChar

fun in_class :: "charclass \<Rightarrow> char \<Rightarrow> bool" where
  "in_class Digit c = (c \<in> set ''0123456789'')"
| "in_class DigitOrDot c = (c \<in> set ''0123456789.'')"
| "in_class (NoneOf cs) c = (c \<notin> set cs)"
| "in_class NonSpace c =
     (c \<notin> set [CHR '' '', CHR 0x09, CHR 0x0A, CHR 0x0B, CHR 0x0C, CHR 0x0D, CHR 0xA0])"
| "in_class AnyChar c = (c \<notin> set [CHR 0x0A, CHR 0x0D])"

datatype regex =
    Empty
  | Chr char
  | Class charclass
  | Seq regex regex
  | Alt regex regex
  | Star regex
  | Plus regex
  | Opt regex
  | Group string regex

type_synonym captures = "(string \<times> string) list"
type_synonym mstate = "string \<times> captures"

text \<open>
  \<open>repeat n m x k\<close>: as many iterations of the matcher \<open>m\<close> as possible, then the
  continuation. Every iteration consumes a character, so that \<open>n\<close>, the length of the
  input, is never used up before the input is.
\<close>

fun repeat ::
  "nat \<Rightarrow> (mstate \<Rightarrow> (mstate \<Rightarrow> mstate option) \<Rightarrow> mstate option) \<Rightarrow> mstate
    \<Rightarrow> (mstate \<Rightarrow> mstate option) \<Rightarrow> mstate option" where
  "repeat 0 m x k = k x"
| "repeat (Suc n) m x k =
     (case m x (\<lambda>y. if length (fst y) < length (fst x) then repeat n m y k else None) of
        Some r \<Rightarrow> Some r
      | None \<Rightarrow> k x)"

primrec matcher :: "regex \<Rightarrow> mstate \<Rightarrow> (mstate \<Rightarrow> mstate option) \<Rightarrow> mstate option" where
  "matcher Empty x k = k x"
| "matcher (Chr c) x k =
     (case fst x of [] \<Rightarrow> None | d # s \<Rightarrow> if d = c then k (s, snd x) else None)"
| "matcher (Class cl) x k =
     (case fst x of [] \<Rightarrow> None | d # s \<Rightarrow> if in_class cl d then k (s, snd x) else None)"
| "matcher (Seq a b) x k = matcher a x (\<lambda>y. matcher b y k)"
| "matcher (Alt a b) x k =
     (case matcher a x k of Some r \<Rightarrow> Some r | None \<Rightarrow> matcher b x k)"
| "matcher (Star a) x k = repeat (length (fst x)) (matcher a) x k"
| "matcher (Plus a) x k = matcher a x (\<lambda>y. repeat (length (fst y)) (matcher a) y k)"
| "matcher (Opt a) x k =
     (case matcher a x (\<lambda>y. if length (fst y) < length (fst x) then k y else None) of
        Some r \<Rightarrow> Some r
      | None \<Rightarrow> k x)"
| "matcher (Group n a) x k =
     matcher a x
       (\<lambda>y. k (fst y, (n, take (length (fst x) - length (fst y)) (fst x)) # snd y))"

text \<open>
  \<open>String.prototype.match\<close> with a pattern that is not global: the first position of
  the message at which the pattern matches, with the captures of that match.
\<close>

fun search :: "regex \<Rightarrow> string \<Rightarrow> captures option" where
  "search re [] = map_option snd (matcher re ([], []) Some)"
| "search re (c # s) =
     (case matcher re (c # s, []) Some of
        Some y \<Rightarrow> Some (snd y)
      | None \<Rightarrow> search re s)"

text \<open>
  The text of a named group. Every named group of the three patterns takes part in every
  match of its pattern.
\<close>

definition named_group :: "captures \<Rightarrow> string \<Rightarrow> string" where
  "named_group g n = (case map_of g n of Some s \<Rightarrow> s | None \<Rightarrow> [])"

definition lit :: "string \<Rightarrow> regex" where
  "lit s = foldr (\<lambda>c r. Seq (Chr c) r) s Empty"

definition seq :: "regex list \<Rightarrow> regex" where
  "seq rs = foldr Seq rs Empty"

text \<open>
  \<^verbatim>\<open>/Duration: (?<duration>\d+:\d+:\d+\.\d+), start: (?<start>[\d.]+), bitrate: (?<bitrate>[\d.]+) kb\/s/\<close>
\<close>

definition durationRegex :: regex where
  "durationRegex =
    seq [Plus (Class Digit), Chr CHR '':'', Plus (Class Digit), Chr CHR '':'',
         Plus (Class Digit), Chr CHR ''.'', Plus (Class Digit)]"

definition containerRegex :: regex where
  "containerRegex =
    seq [lit ''Duration: '', Group ''duration'' durationRegex,
         lit '', start: '', Group ''start'' (Plus (Class DigitOrDot)),
         lit '', bitrate: '', Group ''bitrate'' (Plus (Class DigitOrDot)),
         lit '' kb/s'']"

text \<open>
  The codec of a stream, \<^verbatim>\<open>(?<codec>[^(),]+(\(\S+\))?)\<close>; the inner group has no name.
\<close>

definition codecRegex :: regex where
  "codecRegex =
    Group ''codec''
      (seq [Plus (Class (NoneOf ''(),'')),
            Opt (seq [Chr CHR ''('', Plus (Class NonSpace), Chr CHR '')''])])"

text \<open>
  \<^verbatim>\<open>/Stream #[^:,]+:[^:,]+: Video: (?<codec>[^(),]+(\(\S+\))?).*, (?<color>yuv.+|rgb.+), (?<width>\d+)x(?<height>\d+).*, (?<bitrate>[\d.]+) kb\/s,.* (?<fps>[\d.]+) fps, (?<tbr>[\d.]+) tbr/\<close>
\<close>

definition videoRegex :: regex where
  "videoRegex =
    seq [lit ''Stream #'', Plus (Class (NoneOf '':,'')), Chr CHR '':'',
         Plus (Class (NoneOf '':,'')), lit '': Video: '', codecRegex,
         Star (Class AnyChar), lit '', '',
         Group ''color'' (Alt (Seq (lit ''yuv'') (Plus (Class AnyChar)))
                              (Seq (lit ''rgb'') (Plus (Class AnyChar)))),
         lit '', '', Group ''width'' (Plus (Class Digit)), Chr CHR ''x'',
         Group ''height'' (Plus (Class Digit)), Star (Class AnyChar), lit '', '',
         Group ''bitrate'' (Plus (Class DigitOrDot)), lit '' kb/s,'',
         Star (Class AnyChar), Chr CHR '' '', Group ''fps'' (Plus (Class DigitOrDot)),
         lit '' fps, '', Group ''tbr'' (Plus (Class DigitOrDot)), lit '' tbr'']"

text \<open>
  \<^verbatim>\<open>/Stream #[^:,]+:[^:,]+: Audio: (?<codec>[^(),]+(\(\S+\))?).*, (?<sampleRate>\d+) Hz, (?<channelSetup>[^,]+), [^,]+, (?<bitrate>[\d.]+) kb\/s/\<close>
\<close>

definition audioRegex :: regex where
  "audioRegex =
    seq [lit ''Stream #'', Plus (Class (NoneOf '':,'')), Chr CHR '':'',
         Plus (Class (NoneOf '':,'')), lit '': Audio: '', codecRegex,
         Star (Class AnyChar), lit '', '',
         Group ''sampleRate'' (Plus (Class Digit)), lit '' Hz, '',
         Group ''channelSetup'' (Plus (Class (NoneOf '',''))), lit '', '',
         Plus (Class (NoneOf '','')), lit '', '',
         Group ''bitrate'' (Plus (Class DigitOrDot)), lit '' kb/s'']"

section \<open>The analysis of the encoder's log\<close>

text \<open>
  \<open>parseFloat\<close> on the strings that the groups above can hold: digits and dots, without
  sign, exponent or space. The longest prefix that is a decimal literal gives the value,
  and there is no value (\<open>NaN\<close>) if that prefix has no digit.
\<close>

definition isDigit :: "char \<Rightarrow> bool" where
  "isDigit c = (c \<in> set ''0123456789'')"

definition digitValue :: "char \<Rightarrow> nat" where
  "digitValue c = of_char c - 48"

definition decimal :: "string \<Rightarrow> nat" where
  "decimal s = foldl (\<lambda>n c. 10 * n + digitValue c) 0 s"

definition parseFloat :: "string \<Rightarrow> jsnum" where
  "parseFloat s =
    (let ip = takeWhile isDigit s;
         rest = dropWhile isDigit s;
         fp = (case rest of
                 [] \<Rightarrow> []
               | c # t \<Rightarrow> if c = CHR ''.'' then takeWhile isDigit t else [])
     in if ip = [] \<and> fp = [] then NaN
        else Finite (real (decimal ip) + real (decimal fp) / 10 ^ length fp))"

text \<open>\<open>Math.max\<close> of two numbers.\<close>

definition jmax :: "jsnum \<Rightarrow> jsnum \<Rightarrow> jsnum" where
  "jmax x y = (if x = NaN \<or> y = NaN then NaN else if jlt x y then y else x)"

text \<open>\<open>String.prototype.split\<close> with a separator of one character.\<close>

fun split_on :: "char \<Rightarrow> string \<Rightarrow> string list" where
  "split_on c [] = [[]]"
| "split_on c (x # xs) =
     (if x = c then [] # split_on c xs
      else (case split_on c xs of [] \<Rightarrow> [[x]] | y # ys \<Rightarrow> (x # y) # ys))"

text \<open>
  \<open>Array.prototype.reduce\<close> without an initial value: the first element starts the
  fold, and an empty array is a \<open>TypeError\<close>.
\<close>

definition reduce :: "('a \<Rightarrow> 'a \<Rightarrow> 'a) \<Rightarrow> 'a list \<Rightarrow> error + 'a" where
  "reduce f xs = (case xs of [] \<Rightarrow> Inl TypeError | x # ys \<Rightarrow> Inr (foldl f x ys))"

text \<open>
  \<open>parseMetadata\<close> updates the accumulator in place; the model returns the accumulator
  after the call. A line of a stream is taken only once the container is known.
\<close>

definition parseMetadata :: "string \<Rightarrow> PartialFormat \<Rightarrow> error + PartialFormat" where
  "parseMetadata message metadata =
    (case search containerRegex message of
       Some g \<Rightarrow>
         (case reduce (\<lambda>a b. jadd (jmul a (Finite 60)) b)
                 (map parseFloat (split_on CHR '':'' (named_group g ''duration''))) of
            Inl e \<Rightarrow> Inl e
          | Inr d \<Rightarrow>
              Inr (metadata\<lparr>container_p :=
                     Some \<lparr>duration = d, start = parseFloat (named_group g ''start'')\<rparr>\<rparr>))
     | None \<Rightarrow>
         (case (search videoRegex message, container_p metadata) of
            (Some g, Some c) \<Rightarrow>
              Inr (metadata\<lparr>video_p := Some
                    \<lparr>preset = None,
                     implausible = None,
                     original = Some True,
                     codec = named_group g ''codec'',
                     color = named_group g ''color'',
                     width = parseFloat (named_group g ''width''),
                     height = parseFloat (named_group g ''height''),
                     rotation = None,
                     bitrate = Some (parseFloat (named_group g ''bitrate'')),
                     crf = None,
                     fps = jmax (parseFloat (named_group g ''fps'')) (parseFloat (named_group g ''tbr'')),
                     expectedSize =
                       Some (jdiv (jmul (parseFloat (named_group g ''bitrate'')) (duration c))
                                  (Finite 8))\<rparr>\<rparr>)
          | _ \<Rightarrow>
              (case (search audioRegex message, container_p metadata) of
                 (Some g, Some c) \<Rightarrow>
                   Inr (metadata\<lparr>audio_p := Some
                         \<lparr>preset_a = None,
                          original_a = Some True,
                          codec_a = named_group g ''codec'',
                          sampleRate = parseFloat (named_group g ''sampleRate''),
                          channelSetup = named_group g ''channelSetup'',
                          bitrate_a = parseFloat (named_group g ''bitrate''),
                          expectedSize_a =
                            Some (jdiv (jmul (parseFloat (named_group g ''bitrate'')) (duration c))
                                       (Finite 8))\<rparr>\<rparr>)
               | _ \<Rightarrow> Inr metadata)))"

text \<open>
  \<open>analyzeVideo\<close> runs the encoder on the file and hands every message of its log to
  \<open>parseMetadata\<close>, starting from the empty accumulator; \<open>messages\<close> is that log. After
  the run it asks for the container and the video stream, and for nothing else.
\<close>

fun parseMessages :: "string list \<Rightarrow> PartialFormat \<Rightarrow> error + PartialFormat" where
  "parseMessages [] metadata = Inr metadata"
| "parseMessages (message # rest) metadata =
     (case parseMetadata message metadata of
        Inl e \<Rightarrow> Inl e
      | Inr metadata' \<Rightarrow> parseMessages rest metadata')"

definition finishAnalysis :: "PartialFormat \<Rightarrow> error + Format" where
  "finishAnalysis metadata =
    (case (container_p metadata, video_p metadata) of
       (Some c, Some v) \<Rightarrow> Inr \<lparr>container = c, video = v, audio = audio_p metadata\<rparr>
     | _ \<Rightarrow> Inl CouldNotAnalyze)"

definition analyzeVideo :: "string list \<Rightarrow> error + Format" where
  "analyzeVideo messages =
    (case parseMessages messages \<lparr>container_p = None, video_p = None, audio_p = None\<rparr> of
       Inl e \<Rightarrow> Inl e
     | Inr metadata \<Rightarrow> finishAnalysis metadata)"

section \<open>Kinds of options\<close>

text \<open>
  The options of the catalog are of four kinds. An option that reuses the stream of the
  source is the video record of the source with a new preset and \<open>original\<close> set; the
  tests that lead to it have checked the codec, the pixel format and the bitrate.
\<close>

definition reuses :: "Format \<Rightarrow> VideoFormat \<Rightarrow> bool" where
  "reuses source c =
    (\<exists>p. c = (video source)\<lparr>preset := Some p, original := Some True\<rparr> \<and>
         startsWith (codec (video source)) ''h264'' \<and> color (video source) = ''yuv420p'' \<and>
         width (video source) \<noteq> NaN \<and> height (video source) \<noteq> NaN \<and>
         bitrate (video source) \<noteq> None)"

definition reducedFps :: "Format \<Rightarrow> Resolution \<Rightarrow> jsnum" where
  "reducedFps source r = jdiv (fps (video source)) (jceil (jdiv (fps (video source)) (fps_r r)))"

definition sizeSynthesized :: "Format \<Rightarrow> VideoFormat \<Rightarrow> bool" where
  "sizeSynthesized source c =
    (original c = None \<and> codec c = ''h264 (High)'' \<and> crf c = None \<and> bitrate c \<noteq> None \<and>
     fps c = jdiv (fps (video source)) (jceil (jdiv (fps (video source)) (Finite 30))))"

definition crfSynthesized :: "Format \<Rightarrow> VideoFormat \<Rightarrow> bool" where
  "crfSynthesized source c =
    (original c = Some False \<and> codec c = ''h264 (High)'' \<and> crf c = Some (Finite 21) \<and>
     bitrate c = None \<and>
     fps c = jdiv (fps (video source)) (jceil (jdiv (fps (video source)) (Finite 30))))"

definition gifSynthesized :: "VideoFormat \<Rightarrow> bool" where
  "gifSynthesized c =
    (original c = None \<and> codec c = ''gif'' \<and> crf c = None \<and> bitrate c = None \<and>
     fps c = Finite (50 / 3))"

section \<open>Concrete inputs\<close>

text \<open>
  A printer of numbers for the concrete inputs below: it prints the integers, below
  \<open>2 ^ 53\<close> in magnitude, as the language does.
\<close>

fun digitsOf :: "nat \<Rightarrow> string" where
  "digitsOf n =
     (if n < 10 then [''0123456789'' ! n]
      else digitsOf (n div 10) @ [''0123456789'' ! (n mod 10)])"

declare digitsOf.simps [simp del]

definition integerToString :: "jsnum \<Rightarrow> string" where
  "integerToString x =
    (case x of
       Finite a \<Rightarrow> (if a < 0 then ''-'' else []) @ digitsOf (nat \<lfloor>\<bar>a\<bar>\<rfloor>)
     | Infinity \<Rightarrow> ''Infinity''
     | NegInfinity \<Rightarrow> ''-Infinity''
     | NaN \<Rightarrow> ''NaN'')"

text \<open>A source of 1920x1080 with stereo sound, two minutes long.\<close>

definition source_example :: Format where
  "source_example =
    \<lparr>container = \<lparr>duration = Finite 120, start = Finite 0\<rparr>,
     video = \<lparr>preset = None, implausible = None, original = None,
              codec = ''h264 (High)'', color = ''yuv420p'',
              width = Finite 1920, height = Finite 1080, rotation = None,
              bitrate = Some (Finite 4000), crf = None, fps = Finite 30,
              expectedSize = None\<rparr>,
     audio = Some \<lparr>preset_a = None, original_a = None, codec_a = ''aac (LC)'',
                   sampleRate = Finite 48000, channelSetup = ''stereo'',
                   bitrate_a = Finite 192, expectedSize_a = None\<rparr>\<rparr>"

text \<open>The same source with a width that is odd.\<close>

definition source_odd :: Format where
  "source_odd =
    source_example\<lparr>video := (video source_example)\<lparr>width := Finite 853, height := Finite 480\<rparr>\<rparr>"

text \<open>The same source with 50 frames per second, and its option \<open>crf_480p\<close>.\<close>

definition source_50fps :: Format where
  "source_50fps = source_example\<lparr>video := (video source_example)\<lparr>fps := Finite 50\<rparr>\<rparr>"

definition crf_480p_25fps_example :: VideoFormat where
  "crf_480p_25fps_example =
    \<lparr>preset = Some ''crf_480p'', implausible = None, original = Some False,
     codec = ''h264 (High)'', color = ''yuv420p'', width = Finite 640, height = Finite 360,
     rotation = Some (Finite 0), bitrate = None, crf = Some (Finite 21), fps = Finite 25,
     expectedSize = None\<rparr>"

text \<open>Two options that the catalog makes for \<open>source_example\<close>.\<close>

definition crf_480p_example :: VideoFormat where
  "crf_480p_example =
    \<lparr>preset = Some ''crf_480p'', implausible = None, original = Some False,
     codec = ''h264 (High)'', color = ''yuv420p'', width = Finite 640, height = Finite 360,
     rotation = Some (Finite 0), bitrate = None, crf = Some (Finite 21), fps = Finite 30,
     expectedSize = None\<rparr>"

definition gif_600p_example :: VideoFormat where
  "gif_600p_example =
    \<lparr>preset = Some ''gif_600p'', implausible = None, original = None,
     codec = ''gif'', color = ''bgra'', width = Finite 600, height = Finite 338,
     rotation = Some (Finite 0), bitrate = None, crf = None, fps = Finite (50 / 3),
     expectedSize = None\<rparr>"

text \<open>
  The log of a file of ten seconds without sound, and the source that the analysis makes
  of it.
\<close>

definition log_example :: "string list" where
  "log_example =
    [''  Duration: 00:00:10.00, start: 0.000000, bitrate: 520 kb/s'',
     ''    Stream #0:0(und): Video: h264 (Main) (avc1 / 0x31637661), yuv420p, 640x480 [SAR 1:1 DAR 4:3], 500 kb/s, 30 fps, 30 tbr, 15360 tbn, 60 tbc (default)'']"

definition source_small :: Format where
  "source_small =
    \<lparr>container = \<lparr>duration = Finite 10, start = Finite 0\<rparr>,
     video = \<lparr>preset = None, implausible = None, original = Some True,
              codec = ''h264 (Main)'', color = ''yuv420p'',
              width = Finite 640, height = Finite 480, rotation = None,
              bitrate = Some (Finite 500), crf = None, fps = Finite 30,
              expectedSize = Some (Finite 625)\<rparr>,
     audio = None\<rparr>"

text \<open>The same file when the log gives the bitrate of its video stream as \<open>0 kb/s\<close>.\<close>

definition log_zero_bitrate :: "string list" where
  "log_zero_bitrate =
    [''  Duration: 00:00:10.00, start: 0.000000, bitrate: 2 kb/s'',
     ''    Stream #0:0(und): Video: h264 (Main) (avc1 / 0x31637661), yuv420p, 640x480 [SAR 1:1 DAR 4:3], 0 kb/s, 30 fps, 30 tbr, 15360 tbn, 60 tbc (default)'']"

definition source_zero_bitrate :: Format where
  "source_zero_bitrate =
    source_small\<lparr>video := (video source_small)\<lparr>bitrate := Some (Finite 0),
                                                  expectedSize := Some (Finite 0)\<rparr>\<rparr>"

definition resolution_480p_example :: Resolution where
  "resolution_480p_example =
     \<lparr>width_r = Finite 640, height_r = Finite 480, fps_r = Finite 30,
      expectedWidth = Finite 640, expectedHeight = Finite 480\<rparr>"

definition reused_480p_example :: VideoFormat where
  "reused_480p_example = (video source_small)\<lparr>preset := Some ''crf_480p'', original := Some True\<rparr>"

definition reused_zero_bitrate_example :: VideoFormat where
  "reused_zero_bitrate_example =
     (video source_zero_bitrate)\<lparr>preset := Some ''crf_480p'', original := Some True\<rparr>"

section \<open>Facts about numbers\<close>

lemma jlt_irrefl: "\<not> jlt x x"
  by (cases x) simp_all

lemma jle_not_NaN: "jle x y \<Longrightarrow> x \<noteq> NaN"
  by (auto simp: jle_def jeq_def)

lemma round_half_bound:
  fixes s :: real and n :: nat
  assumes "s \<le> 1"
  shows "2 * \<lfloor>real n * s / 2 + 1 / 2\<rfloor> \<le> int n + 1"
    and "even n \<Longrightarrow> 2 * \<lfloor>real n * s / 2 + 1 / 2\<rfloor> \<le> int n"
proof -
  have le: "real n * s \<le> real n"
    using assms by (simp add: mult_left_le)
  have "\<lfloor>real n * s / 2 + 1 / 2\<rfloor> \<le> \<lfloor>(real n + 1) / 2\<rfloor>"
    by (rule floor_mono) (use le in \<open>simp add: field_simps\<close>)
  also have "\<lfloor>(real n + 1) / 2\<rfloor> = (int n + 1) div 2"
  proof -
    have "(real n + 1) / 2 = real_of_int (int n + 1) / real_of_int 2"
      by simp
    then show ?thesis
      by (simp only: floor_divide_of_int_eq)
  qed
  finally have b: "\<lfloor>real n * s / 2 + 1 / 2\<rfloor> \<le> (int n + 1) div 2" .
  show "2 * \<lfloor>real n * s / 2 + 1 / 2\<rfloor> \<le> int n + 1"
    using b by linarith
  show "2 * \<lfloor>real n * s / 2 + 1 / 2\<rfloor> \<le> int n" if "even n"
  proof -
    have "(int n + 1) div 2 = int n div 2"
      using that by presburger
    moreover have "2 * (int n div 2) = int n"
      using that by presburger
    ultimately show ?thesis
      using b by linarith
  qed
qed

lemma scale_le_one:
  assumes "0 < sw" and "0 < sh"
  shows "\<exists>s. jmin (Finite 1) (jmin (jdiv (Finite bw) (Finite (real sw)))
                                   (jdiv (Finite bh) (Finite (real sh)))) = Finite s \<and> s \<le> 1"
  using assms by (auto simp: jmin_def)

lemma reduced_fps_bound:
  assumes "\<not> jlt s (Finite 0)"
  shows "\<not> jgt (jdiv s (jceil (jdiv s (Finite 30)))) (Finite 30)"
proof (cases s)
  case (Finite a)
  with assms have a: "0 \<le> a"
    by simp
  show ?thesis
  proof (cases "a = 0")
    case True
    with Finite show ?thesis
      by (simp add: jgt_def)
  next
    case False
    with a have pos: "0 < a"
      by simp
    then have c: "0 < \<lceil>a / 30\<rceil>"
      by simp
    have "a \<le> 30 * real_of_int \<lceil>a / 30\<rceil>"
      using le_of_int_ceiling[of "a / 30"] by linarith
    then have "a / real_of_int \<lceil>a / 30\<rceil> \<le> 30"
      using c by (simp add: pos_divide_le_eq)
    moreover have "jdiv s (jceil (jdiv s (Finite 30))) = Finite (a / real_of_int \<lceil>a / 30\<rceil>)"
    proof -
      have "0 < \<lceil>a / 30\<rceil>"
        using pos by simp
      then have "\<lceil>a / 30\<rceil> \<noteq> 0"
        by linarith
      then show ?thesis
        using Finite by simp
    qed
    ultimately show ?thesis
      by (simp add: jgt_def)
  qed
qed (use assms in \<open>simp_all add: jgt_def signed_inf_def\<close>)

lemma log2_30_ge_4: "4 \<le> log 2 30"
  by (simp add: le_log_iff)

section \<open>The resolution of an option\<close>

text \<open>
  C2, amended. For a source whose width and height are positive integers and a box of
  finite size, the width and the height that \<open>createResolution\<close> returns are even
  integers; each exceeds the dimension of the source by at most one, and does not exceed
  it when that dimension is even.
\<close>

theorem createResolution_even_bounded:
  assumes "width (video source) = Finite (real sw)" and "height (video source) = Finite (real sh)"
    and "0 < sw" and "0 < sh"
  shows "\<exists>kw kh :: int.
           width_r (createResolution source (Finite bw) (Finite bh) f) = Finite (of_int (2 * kw)) \<and>
           height_r (createResolution source (Finite bw) (Finite bh) f) = Finite (of_int (2 * kh)) \<and>
           2 * kw \<le> int sw + 1 \<and> 2 * kh \<le> int sh + 1 \<and>
           (even sw \<longrightarrow> 2 * kw \<le> int sw) \<and> (even sh \<longrightarrow> 2 * kh \<le> int sh)"
proof -
  obtain s where s:
    "jmin (Finite 1) (jmin (jdiv (Finite bw) (Finite (real sw)))
                           (jdiv (Finite bh) (Finite (real sh)))) = Finite s" "s \<le> 1"
    using scale_le_one[OF assms(3,4)] by blast
  let ?kw = "\<lfloor>real sw * s / 2 + 1 / 2\<rfloor>" and ?kh = "\<lfloor>real sh * s / 2 + 1 / 2\<rfloor>"
  have "width_r (createResolution source (Finite bw) (Finite bh) f) = Finite (of_int (2 * ?kw))"
    using assms(1,2) s(1) by (simp add: createResolution_def Let_def mult.commute)
  moreover
  have "height_r (createResolution source (Finite bw) (Finite bh) f) = Finite (of_int (2 * ?kh))"
    using assms(1,2) s(1) by (simp add: createResolution_def Let_def mult.commute)
  ultimately show ?thesis
    using round_half_bound[OF s(2), of sw] round_half_bound[OF s(2), of sh] by blast
qed

text \<open>
  The source of 1920x1080 in the box of 1280x720: the resolution is 1280x720.
\<close>

theorem createResolution_even_bounded_witness:
  "width (video source_example) = Finite (real 1920) \<and>
   height (video source_example) = Finite (real 1080) \<and>
   width_r (createResolution source_example (Finite 1280) (Finite 720) (Finite 30)) = Finite 1280 \<and>
   height_r (createResolution source_example (Finite 1280) (Finite 720) (Finite 30)) = Finite 720 \<and>
   (\<exists>kw kh :: int.
      width_r (createResolution source_example (Finite 1280) (Finite 720) (Finite 30))
        = Finite (of_int (2 * kw)) \<and>
      height_r (createResolution source_example (Finite 1280) (Finite 720) (Finite 30))
        = Finite (of_int (2 * kh)) \<and>
      2 * kw \<le> 1920 \<and> 2 * kh \<le> 1080)"
proof -
  have w: "width (video source_example) = Finite (real 1920)"
    and h: "height (video source_example) = Finite (real 1080)"
    by (simp_all add: source_example_def)
  have r: "width_r (createResolution source_example (Finite 1280) (Finite 720) (Finite 30))
             = Finite 1280"
    "height_r (createResolution source_example (Finite 1280) (Finite 720) (Finite 30))
             = Finite 720"
    by (simp_all add: createResolution_def source_example_def jmin_def)
  obtain kw kh :: int where
    "width_r (createResolution source_example (Finite 1280) (Finite 720) (Finite 30))
       = Finite (of_int (2 * kw))"
    "height_r (createResolution source_example (Finite 1280) (Finite 720) (Finite 30))
       = Finite (of_int (2 * kh))"
    "even (1920::nat) \<longrightarrow> 2 * kw \<le> int 1920" "even (1080::nat) \<longrightarrow> 2 * kh \<le> int 1080"
    using createResolution_even_bounded [OF w h, of 1280 720 "Finite 30"] by auto
  then show ?thesis
    using w h r by auto
qed

text \<open>
  C2 as stated fails for a source of 853x480 in the box of 1280x720: nothing is scaled,
  half the width is 426.5, and the width of the resolution is 854.
\<close>

theorem createResolution_exceeds_odd_source:
  "width (video source_odd) = Finite 853 \<and>
   width_r (createResolution source_odd (Finite 1280) (Finite 720) (Finite 30)) = Finite 854 \<and>
   jgt (width_r (createResolution source_odd (Finite 1280) (Finite 720) (Finite 30)))
       (width (video source_odd))"
  by (simp add: createResolution_def source_odd_def source_example_def jmin_def jgt_def)

section \<open>The progress that is reported\<close>

text \<open>
  C4, amended. When the ratio of the worker is between 0 and 1, the number passed to the
  caller's callback is the ratio times 100, a percentage between 0 and 100; for every
  other ratio, \<open>NaN\<close> among them, it is 0.
\<close>

theorem progressValue_percent:
  "(jge ratio (Finite 0) \<and> jle ratio (Finite 1) \<longrightarrow>
      progressValue ratio = jmul ratio (Finite 100) \<and>
      jge (progressValue ratio) (Finite 0) \<and> jle (progressValue ratio) (Finite 100)) \<and>
   (\<not> (jge ratio (Finite 0) \<and> jle ratio (Finite 1)) \<longrightarrow> progressValue ratio = Finite 0)"
  by (cases ratio) (auto simp: progressValue_def jge_def jle_def jeq_def)

text \<open>A quarter of the work is reported as 25, and a ratio of 2 as 0.\<close>

theorem progressValue_percent_witness:
  "jge (Finite (1 / 4)) (Finite 0) \<and> jle (Finite (1 / 4)) (Finite 1) \<and>
   progressValue (Finite (1 / 4)) = Finite 25 \<and>
   \<not> (jge (Finite 2) (Finite 0) \<and> jle (Finite 2) (Finite 1)) \<and>
   progressValue (Finite 2) = Finite 0"
  using progressValue_percent [of "Finite (1 / 4)"] progressValue_percent [of "Finite 2"]
  by (simp add: jge_def jle_def jeq_def)

text \<open>
  C4 as stated fails for the ratio one half, which is in range: the callback receives 50,
  which is neither the ratio nor a number between 0 and 1.
\<close>

theorem progressValue_half:
  "jge (Finite (1 / 2)) (Finite 0) \<and> jle (Finite (1 / 2)) (Finite 1) \<and>
   progressValue (Finite (1 / 2)) = Finite 50 \<and>
   progressValue (Finite (1 / 2)) \<noteq> Finite (1 / 2) \<and>
   \<not> jle (progressValue (Finite (1 / 2))) (Finite 1)"
  by (simp add: progressValue_def jge_def jle_def jeq_def)

section \<open>The audio options\<close>



section \<open>The shape of the catalog\<close>

lemma getVideoFormats_unfold:
  "getVideoFormats toStr source =
    (case collect (videoFileSizeTarget toStr source (fineResolutions source))
            [Finite 8000, Finite 16000, Finite 50000] of
       Inl e \<Rightarrow> Inl e
     | Inr sizes \<Rightarrow>
         Inr (sizes @ map (videoGifTarget toStr) (rev (gifResolutions source)) @
              map (videoResolutionTarget toStr source) (rev (roughResolutions source))))"
  by (simp add: getVideoFormats_def videoFileSizeTargets_def videoGifTargets_def
      videoResolutionTargets_def array_reverse_def Let_def del: collect.simps split: sum.split)

lemma array_filter_subset: "set (array_filter p xs) \<subseteq> set xs"
  by (auto simp: array_filter_def dest: set_zip_leftD)

text \<open>The filter of the ladders never drops the last resolution.\<close>

lemma array_filter_keeps_last:
  assumes "xs \<noteq> []"
  shows "last xs \<in> set (array_filter filterSensibleResolutions xs)"
proof -
  let ?n = "length xs - 1"
  have n: "?n < length xs"
    using assms by simp
  have "(xs ! ?n, [0..<length xs] ! ?n) \<in> set (zip xs [0..<length xs])"
    using n by (metis length_upt minus_nat.diff_0 nth_zip nth_mem length_zip min.idem)
  then have "(last xs, ?n) \<in> set (zip xs [0..<length xs])"
    using n assms by (simp add: last_conv_nth)
  moreover have "filterSensibleResolutions (last xs) ?n xs"
    using assms by (simp add: filterSensibleResolutions_def)
  ultimately show ?thesis
    by (force simp: array_filter_def)
qed

lemma fineResolutions_nonempty: "fineResolutions source \<noteq> []"
proof -
  have "last [createResolution source (Finite 1280) (Finite 720) (Finite 30),
              createResolution source (Finite 854) (Finite 480) (Finite 30),
              createResolution source (Finite 640) (Finite 360) (Finite 30),
              createResolution source (Finite 426) (Finite 240) (Finite 30)]
          \<in> set (fineResolutions source)"
    unfolding fineResolutions_def by (rule array_filter_keeps_last) simp
  then show ?thesis
    by auto
qed

lemma fineResolutions_fps: "r \<in> set (fineResolutions source) \<Longrightarrow> fps_r r = Finite 30"
  using array_filter_subset[of filterSensibleResolutions] unfolding fineResolutions_def
  by (fastforce simp: createResolution_def Let_def)

lemma roughResolutions_fps: "r \<in> set (roughResolutions source) \<Longrightarrow> fps_r r = Finite 30"
  using array_filter_subset[of filterSensibleResolutions] unfolding roughResolutions_def
  by (fastforce simp: createResolution_def Let_def)

lemma collect_all:
  assumes "\<And>x. x \<in> set xs \<Longrightarrow> \<exists>y. f x = Inr y \<and> P y"
  shows "\<exists>ys. collect f xs = Inr ys \<and> length ys = length xs \<and> (\<forall>y\<in>set ys. P y)"
  using assms
proof (induction xs)
  case Nil
  then show ?case
    by simp
next
  case (Cons x xs)
  obtain y where y: "f x = Inr y" "P y"
    using Cons.prems by auto
  obtain ys where ys: "collect f xs = Inr ys" "length ys = length xs" "\<forall>y\<in>set ys. P y"
    using Cons by auto
  show ?case
    using y ys by simp
qed

lemma reuses_original: "reuses source c \<Longrightarrow> original c = Some True"
  by (auto simp: reuses_def)

lemma implausibleTarget_shape:
  assumes "resolutions \<noteq> []"
  shows "\<exists>c. implausibleTarget toStr source resolutions t b = Inr c \<and>
           original c = None \<and> codec c = ''h264 (High)'' \<and> crf c = None \<and> bitrate c \<noteq> None \<and>
           (\<exists>r\<in>set resolutions. fps c = reducedFps source r)"
  using assms by (auto simp: implausibleTarget_def Let_def reducedFps_def split: list.splits)

lemma sizeOriginalSuitable_reuses:
  "sizeOriginalSuitable source st \<Longrightarrow>
   reuses source ((video source)\<lparr>preset := Some p, original := Some True\<rparr>)"
  by (auto simp: sizeOriginalSuitable_def reuses_def dest: jle_not_NaN split: option.splits)

lemma videoFileSizeTarget_shape:
  assumes "resolutions \<noteq> []"
  shows "\<exists>c. videoFileSizeTarget toStr source resolutions t = Inr c \<and>
           (reuses source c \<or>
            original c = None \<and> codec c = ''h264 (High)'' \<and> crf c = None \<and> bitrate c \<noteq> None \<and>
            (\<exists>r\<in>set resolutions. fps c = reducedFps source r))"
proof (cases "find (\<lambda>res. jge (jmul t (Finite (88 / 100)))
                 (estimateH264Size res (Finite 28) (duration (container source)))) resolutions")
  case None
  then show ?thesis
    using implausibleTarget_shape[OF assms, of toStr source t]
    by (simp add: videoFileSizeTarget_def Let_def) blast
next
  case (Some r)
  then have r: "r \<in> set resolutions"
    by (auto simp: find_Some_iff)
  show ?thesis
    using Some r implausibleTarget_shape[OF assms, of toStr source t]
      sizeOriginalSuitable_reuses[of source _ "''size_'' @ toStr (jdiv t (Finite 1000)) @ ''mb''"]
    by (simp add: videoFileSizeTarget_def Let_def reducedFps_def) blast
qed

lemma videoResolutionTarget_shape:
  "reuses source (videoResolutionTarget toStr source r) \<or>
   original (videoResolutionTarget toStr source r) = Some False \<and>
   codec (videoResolutionTarget toStr source r) = ''h264 (High)'' \<and>
   crf (videoResolutionTarget toStr source r) = Some (Finite 21) \<and>
   bitrate (videoResolutionTarget toStr source r) = None \<and>
   fps (videoResolutionTarget toStr source r) = reducedFps source r"
proof (cases "resolutionOriginalSuitable source r")
  case True
  then have "reuses source ((video source)\<lparr>preset := Some p, original := Some True\<rparr>)" for p
    by (auto simp: resolutionOriginalSuitable_def reuses_def dest: jle_not_NaN
        split: option.splits)
  with True show ?thesis
    by (simp add: videoResolutionTarget_def)
next
  case False
  then show ?thesis
    by (simp add: videoResolutionTarget_def reducedFps_def)
qed

lemma videoGifTarget_shape:
  "original (videoGifTarget toStr r) = None \<and> codec (videoGifTarget toStr r) = ''gif'' \<and>
   crf (videoGifTarget toStr r) = None \<and> bitrate (videoGifTarget toStr r) = None \<and>
   fps (videoGifTarget toStr r) = Finite (50 / 3)"
  by (simp add: videoGifTarget_def)

text \<open>
  \<open>getVideoFormats\<close> returns for every source, and each of its options is of one of the
  four kinds.
\<close>

lemma getVideoFormats_kinds:
  "\<exists>cs. getVideoFormats toStr source = Inr cs \<and>
        (\<forall>c\<in>set cs. reuses source c \<or> sizeSynthesized source c \<or> crfSynthesized source c \<or>
                      gifSynthesized c)"
proof -
  let ?P = "\<lambda>c. reuses source c \<or> sizeSynthesized source c"
  have "\<exists>c. videoFileSizeTarget toStr source (fineResolutions source) t = Inr c \<and> ?P c" for t
    using videoFileSizeTarget_shape[where resolutions = "fineResolutions source"
        and toStr = toStr and source = source and t = t] fineResolutions_nonempty[of source]
    by (auto simp: sizeSynthesized_def reducedFps_def fineResolutions_fps)
  then obtain sizes where sizes:
    "collect (videoFileSizeTarget toStr source (fineResolutions source))
       [Finite 8000, Finite 16000, Finite 50000] = Inr sizes" "\<forall>c\<in>set sizes. ?P c"
    using collect_all[of "[Finite 8000, Finite 16000, Finite 50000]"
        "videoFileSizeTarget toStr source (fineResolutions source)" ?P]
    by blast
  have gifs: "\<forall>c\<in>set (map (videoGifTarget toStr) (rev (gifResolutions source))). gifSynthesized c"
    by (simp add: gifSynthesized_def videoGifTarget_shape)
  have crfs: "\<forall>c\<in>set (map (videoResolutionTarget toStr source) (rev (roughResolutions source))).
               reuses source c \<or> crfSynthesized source c"
  proof
    fix c
    assume "c \<in> set (map (videoResolutionTarget toStr source) (rev (roughResolutions source)))"
    then obtain r where r: "r \<in> set (roughResolutions source)"
      "c = videoResolutionTarget toStr source r"
      by auto
    show "reuses source c \<or> crfSynthesized source c"
      using videoResolutionTarget_shape[of source toStr r] roughResolutions_fps[OF r(1)]
      by (auto simp: crfSynthesized_def reducedFps_def r(2))
  qed
  show ?thesis
    unfolding getVideoFormats_unfold sizes(1)
    using sizes(2) gifs crfs by auto
qed

section \<open>The catalog on the concrete inputs\<close>

lemma digits_480: "integerToString (Finite 480) = ''480''"
  by (simp add: integerToString_def digitsOf.simps)

lemma digits_600: "integerToString (Finite 600) = ''600''"
  by (simp add: integerToString_def digitsOf.simps)

lemma rough_example:
  "roughResolutions source_example =
     [\<lparr>width_r = Finite 1280, height_r = Finite 720, fps_r = Finite 30,
       expectedWidth = Finite 1280, expectedHeight = Finite 720\<rparr>,
      \<lparr>width_r = Finite 640, height_r = Finite 360, fps_r = Finite 30,
       expectedWidth = Finite 640, expectedHeight = Finite 480\<rparr>]"
  by (simp add: roughResolutions_def array_filter_def filterSensibleResolutions_def
      createResolution_def source_example_def jmin_def jne_def jeq_def upt_rec)

lemma gif_example:
  "gifResolutions source_example =
     [\<lparr>width_r = Finite 600, height_r = Finite 338, fps_r = Finite 30,
       expectedWidth = Finite 600, expectedHeight = Finite 600\<rparr>]"
  by (simp add: gifResolutions_def createResolution_def source_example_def jmin_def)

lemma crf_480p_example_generated:
  assumes "getVideoFormats integerToString source_example = Inr cs"
  shows "crf_480p_example \<in> set cs"
proof -
  have "videoResolutionTarget integerToString source_example
     \<lparr>width_r = Finite 640, height_r = Finite 360, fps_r = Finite 30,
       expectedWidth = Finite 640, expectedHeight = Finite 480\<rparr> = crf_480p_example"
    by (simp add: videoResolutionTarget_def resolutionOriginalSuitable_def source_example_def
        crf_480p_example_def jle_def jeq_def digits_480)
  then show ?thesis
    using assms unfolding getVideoFormats_unfold rough_example
    by (auto split: sum.splits)
qed

lemma rough_50fps:
  "roughResolutions source_50fps =
     [\<lparr>width_r = Finite 1280, height_r = Finite 720, fps_r = Finite 30,
       expectedWidth = Finite 1280, expectedHeight = Finite 720\<rparr>,
      \<lparr>width_r = Finite 640, height_r = Finite 360, fps_r = Finite 30,
       expectedWidth = Finite 640, expectedHeight = Finite 480\<rparr>]"
  by (simp add: roughResolutions_def array_filter_def filterSensibleResolutions_def
      createResolution_def source_50fps_def source_example_def jmin_def jne_def jeq_def upt_rec)

lemma crf_480p_25fps_example_generated:
  assumes "getVideoFormats integerToString source_50fps = Inr cs"
  shows "crf_480p_25fps_example \<in> set cs"
proof -
  have "videoResolutionTarget integerToString source_50fps
     \<lparr>width_r = Finite 640, height_r = Finite 360, fps_r = Finite 30,
       expectedWidth = Finite 640, expectedHeight = Finite 480\<rparr> = crf_480p_25fps_example"
    by (simp add: videoResolutionTarget_def resolutionOriginalSuitable_def source_50fps_def
        source_example_def crf_480p_25fps_example_def jle_def jeq_def digits_480)
  then show ?thesis
    using assms unfolding getVideoFormats_unfold rough_50fps
    by (auto split: sum.splits)
qed

lemma gif_600p_example_generated:
  assumes "getVideoFormats integerToString source_example = Inr cs"
  shows "gif_600p_example \<in> set cs"
proof -
  have "videoGifTarget integerToString
     \<lparr>width_r = Finite 600, height_r = Finite 338, fps_r = Finite 30,
       expectedWidth = Finite 600, expectedHeight = Finite 600\<rparr> = gif_600p_example"
    by (simp add: videoGifTarget_def gif_600p_example_def digits_600)
  then show ?thesis
    using assms unfolding getVideoFormats_unfold gif_example
    by (auto split: sum.splits)
qed

lemma estimate_480p_example:
  "\<exists>z. estimateH264Size resolution_480p_example (Finite 18) (Finite 10) = Finite (of_int z) \<and>
       625 \<le> z"
proof -
  have "(625::real) \<le> 640 * 480 * 10 * 4 / 20 / 324"
    by simp
  also have "\<dots> \<le> 640 * 480 * 10 * log 2 30 / 20 / 324"
    using log2_30_ge_4 by simp
  finally have "(625::int) \<le> \<lfloor>640 * 480 * 10 * log 2 30 / 20 / 324 :: real\<rfloor>"
    by (simp add: le_floor_iff)
  moreover have "estimateH264Size resolution_480p_example (Finite 18) (Finite 10)
     = Finite (of_int \<lfloor>640 * 480 * 10 * log 2 30 / 20 / 324 :: real\<rfloor>)"
    by (simp add: estimateH264Size_def resolution_480p_example_def)
  ultimately show ?thesis
    by blast
qed

lemma rough_small:
  "roughResolutions source_small = [resolution_480p_example]"
  "roughResolutions source_zero_bitrate = [resolution_480p_example]"
  by (simp_all add: roughResolutions_def array_filter_def filterSensibleResolutions_def
      createResolution_def source_small_def source_zero_bitrate_def jmin_def jne_def jeq_def
      upt_rec resolution_480p_example_def)

lemma reused_480p_example_generated:
  assumes "getVideoFormats integerToString source_small = Inr cs"
  shows "reused_480p_example \<in> set cs"
proof -
  obtain z :: int where z:
    "estimateH264Size resolution_480p_example (Finite 18) (Finite 10) = Finite (of_int z)"
    "625 \<le> z"
    using estimate_480p_example by blast
  have "resolutionOriginalSuitable source_small resolution_480p_example"
    using z by (auto simp add: resolutionOriginalSuitable_def source_small_def startsWith_def
        jle_def jeq_def resolution_480p_example_def)
  then have "videoResolutionTarget integerToString source_small resolution_480p_example
      = reused_480p_example"
    by (simp add: videoResolutionTarget_def reused_480p_example_def digits_480
        resolution_480p_example_def)
  then show ?thesis
    using assms unfolding getVideoFormats_unfold rough_small
    by (auto split: sum.splits)
qed

lemma reused_zero_bitrate_example_generated:
  assumes "getVideoFormats integerToString source_zero_bitrate = Inr cs"
  shows "reused_zero_bitrate_example \<in> set cs"
proof -
  obtain z :: int where z:
    "estimateH264Size resolution_480p_example (Finite 18) (Finite 10) = Finite (of_int z)"
    "625 \<le> z"
    using estimate_480p_example by blast
  have "resolutionOriginalSuitable source_zero_bitrate resolution_480p_example"
    using z by (simp add: resolutionOriginalSuitable_def source_small_def source_zero_bitrate_def
        startsWith_def jle_def jeq_def resolution_480p_example_def)
  then have "videoResolutionTarget integerToString source_zero_bitrate resolution_480p_example
      = reused_zero_bitrate_example"
    by (simp add: videoResolutionTarget_def reused_zero_bitrate_example_def digits_480
        resolution_480p_example_def)
  then show ?thesis
    using assms unfolding getVideoFormats_unfold rough_small
    by (auto split: sum.splits)
qed

section \<open>Rate control and frame rate of the synthesized options\<close>

text \<open>
  C1, amended. \<open>getVideoFormats\<close> returns a list for every source. Every option of the
  list that does not reuse the source and is not an animated image (the size-targeted and
  the resolution-targeted options) has exactly one of \<open>crf\<close> and \<open>bitrate\<close> set; the
  options for animated images, with the codec \<open>gif\<close>, have neither.
\<close>

theorem synthesized_rate_control:
  "\<exists>cs. getVideoFormats toStr source = Inr cs \<and>
     (\<forall>c\<in>set cs. original c \<noteq> Some True \<longrightarrow>
        (if codec c = ''gif'' then bitrate c = None \<and> crf c = None
         else (bitrate c = None) \<noteq> (crf c = None)))"
proof -
  obtain cs where cs: "getVideoFormats toStr source = Inr cs"
    "\<forall>c\<in>set cs. reuses source c \<or> sizeSynthesized source c \<or> crfSynthesized source c \<or>
                      gifSynthesized c"
    using getVideoFormats_kinds by blast
  have "if codec c = ''gif'' then bitrate c = None \<and> crf c = None
         else (bitrate c = None) \<noteq> (crf c = None)"
    if "c \<in> set cs" "original c \<noteq> Some True" for c
    using cs(2) that
    by (auto simp: sizeSynthesized_def crfSynthesized_def gifSynthesized_def dest: reuses_original)
  with cs(1) show ?thesis
    by blast
qed

text \<open>
  The option \<open>crf_480p\<close> of the source of 1920x1080 is synthesized, and has a \<open>crf\<close> and
  no \<open>bitrate\<close>.
\<close>

theorem synthesized_rate_control_witness:
  "\<exists>cs. getVideoFormats integerToString source_example = Inr cs \<and>
     crf_480p_example \<in> set cs \<and> original crf_480p_example \<noteq> Some True \<and>
     codec crf_480p_example \<noteq> ''gif'' \<and>
     (bitrate crf_480p_example = None) \<noteq> (crf crf_480p_example = None)"
proof -
  obtain cs where cs: "getVideoFormats integerToString source_example = Inr cs"
    "\<forall>c\<in>set cs. original c \<noteq> Some True \<longrightarrow>
        (if codec c = ''gif'' then bitrate c = None \<and> crf c = None
         else (bitrate c = None) \<noteq> (crf c = None))"
    using synthesized_rate_control [of integerToString source_example] by blast
  have m: "crf_480p_example \<in> set cs"
    using cs(1) by (rule crf_480p_example_generated)
  have o: "original crf_480p_example \<noteq> Some True" "codec crf_480p_example \<noteq> ''gif''"
    by (simp_all add: crf_480p_example_def)
  from cs(2) m o have "(bitrate crf_480p_example = None) \<noteq> (crf crf_480p_example = None)"
    by (metis (full_types))
  with cs(1) m o show ?thesis
    by blast
qed

text \<open>
  C1 as stated fails for the source of 1920x1080: its option \<open>gif_600p\<close> is synthesized
  and has neither a \<open>crf\<close> nor a \<open>bitrate\<close>.
\<close>

theorem gif_candidate_without_rate_control:
  "(case getVideoFormats integerToString source_example of
      Inl e \<Rightarrow> False
    | Inr cs \<Rightarrow> gif_600p_example \<in> set cs) \<and>
   original gif_600p_example \<noteq> Some True \<and>
   bitrate gif_600p_example = None \<and> crf gif_600p_example = None"
proof -
  obtain cs where cs: "getVideoFormats integerToString source_example = Inr cs"
    using getVideoFormats_kinds by blast
  then show ?thesis
    using gif_600p_example_generated[OF cs] by (simp add: gif_600p_example_def)
qed

text \<open>
  C3, amended. Every option that does not reuse the source and is not an animated image
  has the frame rate \<open>sourceFps / ceil(sourceFps / 30)\<close>, 30 being the frame rate of every
  resolution of the ladders; the options for animated images have the fixed frame rate
  \<open>100 / 6\<close> instead. The frame rate of the rule does not exceed 30 when the frame rate of
  the source is at least \<open>2 ^ -1000\<close> and below \<open>2 ^ 53\<close>. The bound is stated for this
  range only, because there it does not depend on the rounding of the two divisions: with
  \<open>q\<close> the exact quotient by 30, the rounded quotient is positive, and when it is below
  \<open>q\<close> it is not an integer (the next number above a multiple \<open>30 * m\<close> is too far from
  it for \<open>q\<close> to round to \<open>m\<close>), so that the divisor is at least \<open>q\<close> as it is here.
  Outside the range nothing is said: there the rounded quotient can be 0 or an integer
  below \<open>q\<close>.
\<close>

theorem synthesized_fps:
  "\<exists>cs. getVideoFormats toStr source = Inr cs \<and>
     (\<forall>c\<in>set cs. original c \<noteq> Some True \<longrightarrow>
        (if codec c = ''gif'' then fps c = jdiv (Finite 100) (Finite 6)
         else fps c = jdiv (fps (video source)) (jceil (jdiv (fps (video source)) (Finite 30))) \<and>
              (\<forall>a. fps (video source) = Finite a \<and> 1 / 2 ^ 1000 \<le> a \<and> a < 2 ^ 53 \<longrightarrow>
                   \<not> jgt (fps c) (Finite 30))))"
proof -
  obtain cs where cs: "getVideoFormats toStr source = Inr cs"
    "\<forall>c\<in>set cs. reuses source c \<or> sizeSynthesized source c \<or> crfSynthesized source c \<or>
                      gifSynthesized c"
    using getVideoFormats_kinds by blast
  have b: "\<not> jgt (jdiv (fps (video source)) (jceil (jdiv (fps (video source)) (Finite 30))))
               (Finite 30)"
    if "fps (video source) = Finite a" "1 / 2 ^ 1000 \<le> a" for a :: real
  proof -
    have "(0::real) < 1 / 2 ^ 1000"
      by simp
    with that(2) have "0 < a"
      by linarith
    then have "\<not> jlt (fps (video source)) (Finite 0)"
      using that(1) by simp
    then show ?thesis
      by (rule reduced_fps_bound)
  qed
  have "if codec c = ''gif'' then fps c = jdiv (Finite 100) (Finite 6)
         else fps c = jdiv (fps (video source)) (jceil (jdiv (fps (video source)) (Finite 30))) \<and>
              (\<forall>a. fps (video source) = Finite a \<and> 1 / 2 ^ 1000 \<le> a \<and> a < 2 ^ 53 \<longrightarrow>
                   \<not> jgt (fps c) (Finite 30))"
    if "c \<in> set cs" "original c \<noteq> Some True" for c
  proof -
    have k: "sizeSynthesized source c \<or> crfSynthesized source c \<or> gifSynthesized c"
      using cs(2) that by (auto dest: reuses_original)
    show ?thesis
    proof (cases "codec c = ''gif''")
      case True
      with k show ?thesis
        by (auto simp: sizeSynthesized_def crfSynthesized_def gifSynthesized_def)
    next
      case False
      with k have f: "fps c = jdiv (fps (video source))
                                (jceil (jdiv (fps (video source)) (Finite 30)))"
        by (auto simp: sizeSynthesized_def crfSynthesized_def gifSynthesized_def)
      show ?thesis
        using False f b by simp
    qed
  qed
  with cs(1) show ?thesis
    by blast
qed

text \<open>
  The source of 50 frames per second: the divisor is 2, and its option \<open>crf_480p\<close> has 25
  frames per second.
\<close>

theorem synthesized_fps_witness:
  "\<exists>cs. getVideoFormats integerToString source_50fps = Inr cs \<and>
     crf_480p_25fps_example \<in> set cs \<and> original crf_480p_25fps_example \<noteq> Some True \<and>
     codec crf_480p_25fps_example \<noteq> ''gif'' \<and>
     fps (video source_50fps) = Finite 50 \<and> (1::real) / 2 ^ 1000 \<le> 50 \<and> (50::real) < 2 ^ 53 \<and>
     jceil (jdiv (fps (video source_50fps)) (Finite 30)) = Finite 2 \<and>
     fps crf_480p_25fps_example = Finite 25 \<and> \<not> jgt (fps crf_480p_25fps_example) (Finite 30)"
proof -
  obtain cs where cs: "getVideoFormats integerToString source_50fps = Inr cs"
    "\<forall>c\<in>set cs. original c \<noteq> Some True \<longrightarrow>
        (if codec c = ''gif'' then fps c = jdiv (Finite 100) (Finite 6)
         else fps c = jdiv (fps (video source_50fps))
                        (jceil (jdiv (fps (video source_50fps)) (Finite 30))) \<and>
              (\<forall>a. fps (video source_50fps) = Finite a \<and> 1 / 2 ^ 1000 \<le> a \<and> a < 2 ^ 53 \<longrightarrow>
                   \<not> jgt (fps c) (Finite 30)))"
    using synthesized_fps [of integerToString source_50fps] by blast
  have m: "crf_480p_25fps_example \<in> set cs"
    using cs(1) by (rule crf_480p_25fps_example_generated)
  have o: "original crf_480p_25fps_example \<noteq> Some True" "codec crf_480p_25fps_example \<noteq> ''gif''"
    "fps (video source_50fps) = Finite 50" "fps crf_480p_25fps_example = Finite 25"
    "jceil (jdiv (fps (video source_50fps)) (Finite 30)) = Finite 2"
    by (simp_all add: crf_480p_25fps_example_def source_50fps_def source_example_def)
  have r: "(1::real) / 2 ^ 1000 \<le> 50" "(50::real) < 2 ^ 53"
    by simp_all
  from cs(2) m o(1,2)
  have "\<forall>a. fps (video source_50fps) = Finite a \<and> 1 / 2 ^ 1000 \<le> a \<and> a < 2 ^ 53 \<longrightarrow>
           \<not> jgt (fps crf_480p_25fps_example) (Finite 30)"
    by (metis (full_types))
  with o(3) r have "\<not> jgt (fps crf_480p_25fps_example) (Finite 30)"
    by blast
  with cs(1) m o r show ?thesis
    by blast
qed

text \<open>
  C3 as stated fails for the source of 30 frames per second: the rule gives 30, and its
  option \<open>gif_600p\<close> has \<open>50 / 3\<close> frames per second.
\<close>

theorem gif_candidate_fixed_fps:
  "(case getVideoFormats integerToString source_example of
      Inl e \<Rightarrow> False
    | Inr cs \<Rightarrow> gif_600p_example \<in> set cs) \<and>
   original gif_600p_example \<noteq> Some True \<and>
   jdiv (fps (video source_example)) (jceil (jdiv (fps (video source_example)) (Finite 30)))
     = Finite 30 \<and>
   fps gif_600p_example = Finite (50 / 3) \<and>
   fps gif_600p_example \<noteq>
     jdiv (fps (video source_example)) (jceil (jdiv (fps (video source_example)) (Finite 30)))"
proof -
  obtain cs where cs: "getVideoFormats integerToString source_example = Inr cs"
    using getVideoFormats_kinds by blast
  then show ?thesis
    using gif_600p_example_generated[OF cs]
    by (simp add: gif_600p_example_def source_example_def)
qed

section \<open>The ladder after a call\<close>

text \<open>
  C5, amended. \<open>videoResolutionTargets\<close> and \<open>videoGifTargets\<close> reverse the array of the
  caller itself: after the call the array holds the same resolutions in the opposite
  order, every other array is as before, and the options are those of the resolutions in
  the opposite order. A second call on the same array finds it reversed, and makes the
  options in the order in which the ladder was written.
\<close>

theorem generators_reverse_in_place:
  "snd (videoResolutionTargets toStr source r h) r = rev (h r) \<and>
   snd (videoGifTargets toStr source r h) r = rev (h r) \<and>
   (\<forall>r'. r' \<noteq> r \<longrightarrow> snd (videoResolutionTargets toStr source r h) r' = h r' \<and>
                     snd (videoGifTargets toStr source r h) r' = h r') \<and>
   fst (videoResolutionTargets toStr source r h)
     = map (videoResolutionTarget toStr source) (rev (h r)) \<and>
   fst (videoGifTargets toStr source r h) = map (videoGifTarget toStr) (rev (h r)) \<and>
   fst (videoResolutionTargets toStr source r (snd (videoResolutionTargets toStr source r h)))
     = map (videoResolutionTarget toStr source) (h r) \<and>
   fst (videoGifTargets toStr source r (snd (videoGifTargets toStr source r h)))
     = map (videoGifTarget toStr) (h r)"
  by (simp add: videoResolutionTargets_def videoGifTargets_def array_reverse_def Let_def)

text \<open>
  With the rough ladder of the source of 1920x1080 in array 0 and its ladder for animated
  images in array 2, a call on array 0 leaves array 2 as it is and turns array 0 around.
\<close>

theorem generators_reverse_in_place_witness:
  "(2::nat) \<noteq> 0 \<and>
   snd (videoResolutionTargets integerToString source_example 0
          ((\<lambda>_. [])(0 := roughResolutions source_example, 2 := gifResolutions source_example))) 2
     = gifResolutions source_example \<and>
   snd (videoResolutionTargets integerToString source_example 0
          ((\<lambda>_. [])(0 := roughResolutions source_example, 2 := gifResolutions source_example))) 0
     = rev (roughResolutions source_example)"
  using generators_reverse_in_place [of integerToString source_example 0
      "(\<lambda>_. [])(0 := roughResolutions source_example, 2 := gifResolutions source_example)"]
  by simp

text \<open>
  C5 as stated fails for the rough ladder of the source of 1920x1080, which is 1280x720
  before 640x360: after either call the array of the caller is not what it was.
\<close>

theorem ladder_reversed_after_call:
  "snd (videoResolutionTargets integerToString source_example 0
          ((\<lambda>_. [])(0 := roughResolutions source_example))) 0
     \<noteq> roughResolutions source_example \<and>
   snd (videoGifTargets integerToString source_example 0
          ((\<lambda>_. [])(0 := roughResolutions source_example))) 0
     \<noteq> roughResolutions source_example"
  by (simp add: videoResolutionTargets_def videoGifTargets_def array_reverse_def Let_def
      rough_example)

section \<open>The arguments for an option of the catalog\<close>

lemma not_none_if_h264: "startsWith s ''h264'' \<Longrightarrow> s \<noteq> ''none''"
  by (auto simp: startsWith_def)

lemma videoArguments_reused:
  assumes "reuses source c" and "video format = c"
    and "\<forall>x. toStr x \<noteq> ''-s:v'' \<and> toStr x \<noteq> ''-r:v''"
  shows "if truthy_opt (crf c) \<or> truthy_opt (bitrate c)
         then \<exists>args. videoArguments toStr source format = Inr args \<and>
                ''-s:v'' \<notin> set args \<and> ''-r:v'' \<notin> set args
         else videoArguments toStr source format = Inl NoRateControl"
proof -
  obtain p where c: "c = (video source)\<lparr>preset := Some p, original := Some True\<rparr>"
    and h: "startsWith (codec (video source)) ''h264''" "color (video source) = ''yuv420p''"
      "width (video source) \<noteq> NaN" "height (video source) \<noteq> NaN"
    using assms(1) by (auto simp: reuses_def)
  have k: "''-s:v'' \<noteq> toStr x @ ''k''" "''-r:v'' \<noteq> toStr x @ ''k''" for x
    by (auto simp: Cons_eq_append_conv)
  have t: "''-s:v'' \<noteq> toStr x" "''-r:v'' \<noteq> toStr x" for x
    using assms(3) by metis+
  show ?thesis
    using h not_none_if_h264[OF h(1)] k t
    by (simp add: videoArguments_def assms(2) c Let_def jne_def jeq_def jgt_def jlt_irrefl)
qed

lemma digitsOf_chars: "set (digitsOf n) \<subseteq> set ''0123456789''"
proof (induction n rule: digitsOf.induct)
  case (1 n)
  have d: "''0123456789'' ! k \<in> set ''0123456789''" if "k < 10" for k
    using that by (intro nth_mem) simp
  show ?case
  proof (cases "n < 10")
    case True
    then show ?thesis
      using d[of n] by (subst digitsOf.simps) simp
  next
    case False
    then have "set (digitsOf (n div 10)) \<subseteq> set ''0123456789''"
      using 1 by simp
    moreover have "''0123456789'' ! (n mod 10) \<in> set ''0123456789''"
      by (rule d) simp
    ultimately show ?thesis
      using False by (subst digitsOf.simps) auto
  qed
qed

lemma integerToString_no_flag:
  "integerToString x \<noteq> ''-s:v'' \<and> integerToString x \<noteq> ''-r:v''"
proof (cases x)
  case (Finite a)
  have "CHR ''v'' \<notin> set (integerToString x)"
    using digitsOf_chars[of "nat \<lfloor>\<bar>a\<bar>\<rfloor>"] Finite by (auto simp: integerToString_def)
  then show ?thesis
    by auto
qed (simp_all add: integerToString_def)

text \<open>
  C6, amended. Let the printer of numbers never print the name of a flag. For an option
  of the catalog that reuses the source, given back as the video of the target,
  \<open>videoArguments\<close> never returns a list of arguments with \<open>-s:v\<close> or with \<open>-r:v\<close> in it,
  and it does return a list of arguments when the \<open>crf\<close> or the \<open>bitrate\<close> of the option
  is a number other than 0.
\<close>

theorem reused_candidate_arguments:
  assumes "getVideoFormats toStr source = Inr cs" and "c \<in> set cs" and "original c = Some True"
    and "video format = c"
    and "\<forall>x. toStr x \<noteq> ''-s:v'' \<and> toStr x \<noteq> ''-r:v''"
  shows "(\<forall>args. videoArguments toStr source format = Inr args \<longrightarrow>
            ''-s:v'' \<notin> set args \<and> ''-r:v'' \<notin> set args) \<and>
         (truthy_opt (crf c) \<or> truthy_opt (bitrate c) \<longrightarrow>
            (\<exists>args. videoArguments toStr source format = Inr args))"
proof -
  have "reuses source c \<or> sizeSynthesized source c \<or> crfSynthesized source c \<or> gifSynthesized c"
    using getVideoFormats_kinds[of toStr source] assms(1,2) by auto
  then have "reuses source c"
    using assms(3) by (auto simp: sizeSynthesized_def crfSynthesized_def gifSynthesized_def)
  then have "if truthy_opt (crf c) \<or> truthy_opt (bitrate c)
         then \<exists>args. videoArguments toStr source format = Inr args \<and>
                ''-s:v'' \<notin> set args \<and> ''-r:v'' \<notin> set args
         else videoArguments toStr source format = Inl NoRateControl"
    using assms(4,5) by (rule videoArguments_reused)
  then show ?thesis
    by (auto split: if_splits)
qed

text \<open>
  The source of 640x480 with 500 kb/s is reused for its option \<open>crf_480p\<close>, and the
  arguments for that option name neither a size nor a frame rate.
\<close>

theorem reused_candidate_arguments_witness:
  "\<exists>cs. getVideoFormats integerToString source_small = Inr cs \<and>
        reused_480p_example \<in> set cs \<and> original reused_480p_example = Some True \<and>
        truthy_opt (bitrate reused_480p_example) \<and>
        (\<exists>args. videoArguments integerToString source_small
                  (source_small\<lparr>video := reused_480p_example\<rparr>) = Inr args \<and>
                ''-s:v'' \<notin> set args \<and> ''-r:v'' \<notin> set args)"
proof -
  obtain cs where cs: "getVideoFormats integerToString source_small = Inr cs"
    using getVideoFormats_kinds by blast
  have m: "reused_480p_example \<in> set cs"
    using cs by (rule reused_480p_example_generated)
  have o: "original reused_480p_example = Some True" "truthy_opt (bitrate reused_480p_example)"
    "video (source_small\<lparr>video := reused_480p_example\<rparr>) = reused_480p_example"
    by (simp_all add: reused_480p_example_def source_small_def)
  have "\<forall>x. integerToString x \<noteq> ''-s:v'' \<and> integerToString x \<noteq> ''-r:v''"
    using integerToString_no_flag by blast
  from reused_candidate_arguments [OF cs m o(1) o(3) this] o(2)
  have "\<exists>args. videoArguments integerToString source_small
                  (source_small\<lparr>video := reused_480p_example\<rparr>) = Inr args \<and>
                ''-s:v'' \<notin> set args \<and> ''-r:v'' \<notin> set args"
    by blast
  with cs m o show ?thesis
    by blast
qed

lemma log_zero_bitrate_container:
  "search containerRegex ''  Duration: 00:00:10.00, start: 0.000000, bitrate: 2 kb/s''
   = Some [(''bitrate'', ''2''), (''start'', ''0.000000''), (''duration'', ''00:00:10.00'')]"
  by code_simp

lemma log_zero_bitrate_video:
  "search containerRegex ''    Stream #0:0(und): Video: h264 (Main) (avc1 / 0x31637661), yuv420p, 640x480 [SAR 1:1 DAR 4:3], 0 kb/s, 30 fps, 30 tbr, 15360 tbn, 60 tbc (default)'' = None"
  "search videoRegex ''    Stream #0:0(und): Video: h264 (Main) (avc1 / 0x31637661), yuv420p, 640x480 [SAR 1:1 DAR 4:3], 0 kb/s, 30 fps, 30 tbr, 15360 tbn, 60 tbc (default)''
   = Some [(''tbr'', ''30''), (''fps'', ''30''), (''bitrate'', ''0''), (''height'', ''480''),
           (''width'', ''640''), (''color'', ''yuv420p''), (''codec'', ''h264 (Main)'')]"
  by code_simp+

lemma log_zero_bitrate_analyzed: "analyzeVideo log_zero_bitrate = Inr source_zero_bitrate"
  unfolding log_zero_bitrate_def analyzeVideo_def
  by (simp add: parseMetadata_def log_zero_bitrate_container log_zero_bitrate_video
      named_group_def reduce_def parseFloat_def isDigit_def decimal_def digitValue_def jmax_def
      source_small_def source_zero_bitrate_def finishAnalysis_def del: search.simps)

text \<open>
  C6 as stated fails for the file of 640x480 whose log gives the bitrate of the video as
  \<open>0 kb/s\<close>: the analysis makes a source with the bitrate 0, the catalog reuses the
  source for the option \<open>crf_480p\<close>, and for that option \<open>videoArguments\<close> raises the error
  of the missing rate control, so that there is no list of arguments.
\<close>

theorem reused_zero_bitrate_no_arguments:
  "analyzeVideo log_zero_bitrate = Inr source_zero_bitrate \<and>
   (case getVideoFormats integerToString source_zero_bitrate of
      Inl e \<Rightarrow> False
    | Inr cs \<Rightarrow> reused_zero_bitrate_example \<in> set cs) \<and>
   original reused_zero_bitrate_example = Some True \<and>
   videoArguments integerToString source_zero_bitrate
     (source_zero_bitrate\<lparr>video := reused_zero_bitrate_example\<rparr>) = Inl NoRateControl"
proof -
  obtain cs where cs: "getVideoFormats integerToString source_zero_bitrate = Inr cs"
    using getVideoFormats_kinds by blast
  have "videoArguments integerToString source_zero_bitrate
     (source_zero_bitrate\<lparr>video := reused_zero_bitrate_example\<rparr>) = Inl NoRateControl"
    by (simp add: videoArguments_def reused_zero_bitrate_example_def source_zero_bitrate_def
        source_small_def startsWith_def jne_def jeq_def jgt_def Let_def)
  then show ?thesis
    using reused_zero_bitrate_example_generated[OF cs] cs log_zero_bitrate_analyzed
    by (simp add: reused_zero_bitrate_example_def)
qed

text \<open>
  C9. Every option that \<open>videoGifTargets\<close> makes has the codec \<open>gif\<close>, and
  \<open>videoArguments\<close> raises the error of the unsupported video codec for every target
  whose video is such an option, whatever the source; it returns a list of arguments only
  for the codec \<open>none\<close> and for the codecs that start with \<open>h264\<close>.
\<close>

theorem gif_candidate_unsupported:
  assumes "c \<in> set (fst (videoGifTargets toStr source r h))" and "video format = c"
  shows "codec c = ''gif'' \<and>
         videoArguments toStr' metadata format = Inl (UnsupportedVideoCodec ''gif'') \<and>
         (\<forall>target args. videoArguments toStr' metadata target = Inr args \<longrightarrow>
            codec (video target) = ''none'' \<or> startsWith (codec (video target)) ''h264'')"
proof -
  have "codec c = ''gif''"
    using assms(1) by (auto simp: videoGifTargets_def Let_def videoGifTarget_def)
  then have "videoArguments toStr' metadata format = Inl (UnsupportedVideoCodec ''gif'')"
    by (simp add: videoArguments_def assms(2) startsWith_def Let_def)
  moreover
  have "codec (video target) = ''none'' \<or> startsWith (codec (video target)) ''h264''"
    if "videoArguments toStr' metadata target = Inr args" for target args
    using that by (simp add: videoArguments_def Let_def split: if_splits)
  ultimately show ?thesis
    using \<open>codec c = ''gif''\<close> by blast
qed

text \<open>
  The option \<open>gif_600p\<close> of the source of 1920x1080 is made by \<open>videoGifTargets\<close>, and
  there are no arguments for it.
\<close>

theorem gif_candidate_unsupported_witness:
  "gif_600p_example \<in> set (fst (videoGifTargets integerToString source_example 2
       ((\<lambda>_. [])(2 := gifResolutions source_example)))) \<and>
   codec gif_600p_example = ''gif'' \<and>
   videoArguments integerToString source_example (source_example\<lparr>video := gif_600p_example\<rparr>)
     = Inl (UnsupportedVideoCodec ''gif'')"
proof -
  have m: "gif_600p_example \<in> set (fst (videoGifTargets integerToString source_example 2
       ((\<lambda>_. [])(2 := gifResolutions source_example))))"
    by (simp add: videoGifTargets_def array_reverse_def Let_def gif_example videoGifTarget_def
        gif_600p_example_def digits_600)
  have v: "video (source_example\<lparr>video := gif_600p_example\<rparr>) = gif_600p_example"
    by simp
  show ?thesis
    using gif_candidate_unsupported [OF m v, of integerToString source_example] m by simp
qed

section \<open>The bound on the iterations of a quantifier\<close>

text \<open>
  A matcher succeeds only through its continuation. So an iteration that is refused for
  having consumed nothing cannot succeed, and a bound on the iterations above the length
  of the input gives what the length of the input gives: the bound never decides a match.
\<close>

lemma repeat_fails:
  assumes "\<And>x. m x (\<lambda>_. None) = None"
  shows "repeat n m x (\<lambda>_. None) = None"
proof (induction n arbitrary: x)
  case 0
  then show ?case
    by simp
next
  case (Suc n)
  have "(\<lambda>y. if length (fst y) < length (fst x) then repeat n m y (\<lambda>_. None) else None)
      = (\<lambda>_. None)"
    by (simp add: Suc cong: if_cong)
  then show ?case
    by (simp add: assms)
qed

lemma matcher_fails: "matcher a x (\<lambda>_. None) = None"
  by (induction a arbitrary: x) (simp_all add: repeat_fails split: list.splits)

lemma repeat_more_fuel:
  assumes "length (fst x) \<le> n"
  shows "repeat (Suc n) (matcher a) x k = repeat n (matcher a) x k"
  using assms
proof (induction n arbitrary: x)
  case 0
  then show ?case
    by (simp add: matcher_fails del: matcher.simps)
next
  case (Suc n)
  have "(\<lambda>y. if length (fst y) < length (fst x) then repeat (Suc n) (matcher a) y k else None)
      = (\<lambda>y. if length (fst y) < length (fst x) then repeat n (matcher a) y k else None)"
  proof
    fix y
    show "(if length (fst y) < length (fst x) then repeat (Suc n) (matcher a) y k else None)
        = (if length (fst y) < length (fst x) then repeat n (matcher a) y k else None)"
      using Suc.IH[of y] Suc.prems by (simp del: repeat.simps)
  qed
  then show ?case
    by (simp del: matcher.simps)
qed

lemma repeat_enough_fuel:
  assumes "length (fst x) \<le> n"
  shows "repeat n (matcher a) x k = repeat (length (fst x)) (matcher a) x k"
  using assms
proof (induction n)
  case 0
  then show ?case
    by simp
next
  case (Suc n)
  show ?case
  proof (cases "length (fst x) \<le> n")
    case True
    then show ?thesis
      using Suc.IH repeat_more_fuel[OF True, of a k] by simp
  next
    case False
    with Suc.prems have "length (fst x) = Suc n"
      by simp
    then show ?thesis
      by simp
  qed
qed

section \<open>The pattern of the container line\<close>

text \<open>
  A run of characters of one class, followed by a character outside the class, under a
  continuation that refuses every input that starts inside the class: the greedy
  quantifier takes the whole run, and nothing is left to backtrack to.
\<close>

lemma repeat_run:
  assumes "\<forall>c\<in>set ds. in_class cl c"
    and "case rest of [] \<Rightarrow> True | c # _ \<Rightarrow> \<not> in_class cl c"
    and "\<And>c s g'. in_class cl c \<Longrightarrow> k (c # s, g') = None"
    and "length (ds @ rest) \<le> n"
  shows "repeat n (matcher (Class cl)) (ds @ rest, g) k = k (rest, g)"
  using assms(1,4)
proof (induction ds arbitrary: n)
  case Nil
  show ?case
  proof (cases n)
    case 0
    then show ?thesis
      by simp
  next
    case (Suc n')
    have "matcher (Class cl) (rest, g) K = None" for K
      using assms(2) by (cases rest) simp_all
    then show ?thesis
      by (simp add: Suc del: matcher.simps)
  qed
next
  case (Cons d ds)
  then obtain n' where n: "n = Suc n'" "length (ds @ rest) \<le> n'"
    by (cases n) simp_all
  have d: "in_class cl d" and ds: "\<forall>c\<in>set ds. in_class cl c"
    using Cons.prems(1) by simp_all
  have ih: "repeat n' (matcher (Class cl)) (ds @ rest, g) k = k (rest, g)"
    using Cons.IH[OF ds n(2)] .
  have step: "matcher (Class cl) (d # ds @ rest, g) K = K (ds @ rest, g)" for K
    using d by simp
  have "repeat (Suc n') (matcher (Class cl)) (d # ds @ rest, g) k =
          (case k (rest, g) of Some r \<Rightarrow> Some r | None \<Rightarrow> k (d # ds @ rest, g))"
    by (simp add: step ih del: matcher.simps)
  also have "\<dots> = k (rest, g)"
    using assms(3)[OF d, of "ds @ rest" g] by (cases "k (rest, g)") simp_all
  finally show ?case
    by (simp add: n(1) del: matcher.simps repeat.simps)
qed

lemma plus_run:
  assumes "ds \<noteq> []" and "\<forall>c\<in>set ds. in_class cl c"
    and "case rest of [] \<Rightarrow> True | c # _ \<Rightarrow> \<not> in_class cl c"
    and "\<And>c s g'. in_class cl c \<Longrightarrow> k (c # s, g') = None"
  shows "matcher (Plus (Class cl)) (ds @ rest, g) k = k (rest, g)"
proof -
  obtain d ds' where ds: "ds = d # ds'"
    using assms(1) by (cases ds) auto
  have "repeat (length (ds' @ rest)) (matcher (Class cl)) (ds' @ rest, g) k = k (rest, g)"
    using assms(2,3,4) by (intro repeat_run) (simp_all add: ds)
  moreover have "matcher (Class cl) (d # ds' @ rest, g) K = K (ds' @ rest, g)" for K
    using assms(2) by (simp add: ds)
  ultimately show ?thesis
    by (simp add: ds del: matcher.simps(3))
qed

lemma group_run:
  assumes "ds \<noteq> []" and "\<forall>c\<in>set ds. in_class cl c"
    and "case rest of [] \<Rightarrow> True | c # _ \<Rightarrow> \<not> in_class cl c"
    and "\<And>c s g'. in_class cl c \<Longrightarrow> k (c # s, g') = None"
  shows "matcher (Group n (Plus (Class cl))) (ds @ rest, g) k = k (rest, (n, ds) # g)"
proof -
  have "matcher (Plus (Class cl)) (ds @ rest, g)
          (\<lambda>y. k (fst y, (n, take (length (ds @ rest) - length (fst y)) (ds @ rest)) # snd y))
        = k (rest, (n, take (length (ds @ rest) - length rest) (ds @ rest)) # g)"
    using assms by (subst plus_run) simp_all
  then show ?thesis
    by (simp del: matcher.simps(3,7))
qed

lemma duration_run:
  assumes "h \<noteq> []" "\<forall>c\<in>set h. in_class Digit c"
    and "m \<noteq> []" "\<forall>c\<in>set m. in_class Digit c"
    and "s \<noteq> []" "\<forall>c\<in>set s. in_class Digit c"
    and "f \<noteq> []" "\<forall>c\<in>set f. in_class Digit c"
    and "case rest of [] \<Rightarrow> True | c # _ \<Rightarrow> \<not> in_class Digit c"
    and "\<And>c s g'. in_class Digit c \<Longrightarrow> k (c # s, g') = None"
  shows "matcher durationRegex (h @ '':'' @ m @ '':'' @ s @ ''.'' @ f @ rest, g) k = k (rest, g)"
  unfolding durationRegex_def seq_def
  apply (simp del: matcher.simps(3,7))
  apply (subst plus_run)
  using assms apply simp
  using assms apply simp
    apply simp
   apply auto[1]
  apply (simp del: matcher.simps(3,7))
  apply (subst plus_run)
  using assms apply simp
  using assms apply simp
    apply simp
   apply auto[1]
  apply (simp del: matcher.simps(3,7))
  apply (subst plus_run)
  using assms apply simp
  using assms apply simp
    apply simp
   apply auto[1]
  apply (simp del: matcher.simps(3,7))
  apply (subst plus_run)
  using assms apply simp
  using assms apply simp
  using assms apply simp
  using assms apply simp
  apply simp
  done

lemma duration_group:
  assumes "h \<noteq> []" "\<forall>c\<in>set h. in_class Digit c"
    and "m \<noteq> []" "\<forall>c\<in>set m. in_class Digit c"
    and "s \<noteq> []" "\<forall>c\<in>set s. in_class Digit c"
    and "f \<noteq> []" "\<forall>c\<in>set f. in_class Digit c"
    and "case rest of [] \<Rightarrow> True | c # _ \<Rightarrow> \<not> in_class Digit c"
    and "\<And>c s g'. in_class Digit c \<Longrightarrow> k (c # s, g') = None"
  shows "matcher (Group n durationRegex)
           (h @ CHR '':'' # m @ CHR '':'' # s @ CHR ''.'' # f @ rest, g) k
         = k (rest, (n, h @ CHR '':'' # m @ CHR '':'' # s @ CHR ''.'' # f) # g)"
proof -
  define p where "p = h @ CHR '':'' # m @ CHR '':'' # s @ CHR ''.'' # f"
  have run: "matcher durationRegex (p @ rest, g) K = K (rest, g)"
    if "\<And>c s g'. in_class Digit c \<Longrightarrow> K (c # s, g') = None" for K
    using duration_run[of h m s f rest K g] assms(1-9) that by (simp add: p_def)
  have "matcher (Group n durationRegex) (p @ rest, g) k =
        matcher durationRegex (p @ rest, g)
          (\<lambda>y. k (fst y, (n, take (length (p @ rest) - length (fst y)) (p @ rest)) # snd y))"
    by (simp only: matcher.simps fst_conv snd_conv)
  also have "\<dots> = k (rest, (n, take (length (p @ rest) - length rest) (p @ rest)) # g)"
    by (subst run) (simp_all add: assms(10))
  also have "\<dots> = k (rest, (n, p) # g)"
    by simp
  finally show ?thesis
    by (simp add: p_def)
qed

lemma container_match:
  assumes "h \<noteq> []" "\<forall>c\<in>set h. in_class Digit c"
    and "m \<noteq> []" "\<forall>c\<in>set m. in_class Digit c"
    and "s \<noteq> []" "\<forall>c\<in>set s. in_class Digit c"
    and "f \<noteq> []" "\<forall>c\<in>set f. in_class Digit c"
    and "st \<noteq> []" "\<forall>c\<in>set st. in_class DigitOrDot c"
    and "br \<noteq> []" "\<forall>c\<in>set br. in_class DigitOrDot c"
  shows "matcher containerRegex
           (''Duration: '' @ h @ '':'' @ m @ '':'' @ s @ ''.'' @ f @ '', start: '' @ st @
            '', bitrate: '' @ br @ '' kb/s'' @ post, []) Some
         = Some (post, [(''bitrate'', br), (''start'', st),
                        (''duration'', h @ '':'' @ m @ '':'' @ s @ ''.'' @ f)])"
  unfolding containerRegex_def seq_def lit_def
  apply (simp del: matcher.simps(3,7,9))
  apply (subst duration_group)
  using assms apply simp
  using assms apply simp
  using assms apply simp
  using assms apply simp
  using assms apply simp
  using assms apply simp
  using assms apply simp
  using assms apply simp
    apply simp
   apply (auto simp del: matcher.simps(3,7,9))[1]
  apply (simp del: matcher.simps(3,7,9))
  apply (subst group_run)
  using assms apply simp
  using assms apply simp
    apply simp
   apply (auto simp del: matcher.simps(3,7,9))[1]
  apply (simp del: matcher.simps(3,7,9))
  apply (subst group_run)
  using assms apply simp
  using assms apply simp
    apply simp
   apply (auto simp del: matcher.simps(3,7,9))[1]
  apply (simp del: matcher.simps(3,7,9))
  done

lemma container_head: "\<exists>r1 r2. containerRegex = Seq (Seq (Chr CHR ''D'') r1) r2"
  unfolding containerRegex_def seq_def lit_def
  by (simp only: foldr.simps o_apply id_apply) blast

lemma container_no_match_here:
  assumes "c \<noteq> CHR ''D''"
  shows "matcher containerRegex (c # x, g) k = None"
proof -
  obtain r1 r2 where r: "containerRegex = Seq (Seq (Chr CHR ''D'') r1) r2"
    using container_head by blast
  show ?thesis
    unfolding r using assms by (simp only: matcher.simps fst_conv list.case if_False)
qed

lemma search_skip:
  assumes "CHR ''D'' \<notin> set pre" and "x \<noteq> []"
  shows "search containerRegex (pre @ x) = search containerRegex x"
  using assms(1)
proof (induction pre)
  case Nil
  then show ?case
    by simp
next
  case (Cons c pre)
  then have "matcher containerRegex (c # pre @ x, []) Some = None"
    by (intro container_no_match_here) auto
  with Cons show ?case
    by simp
qed

lemma container_search:
  assumes "h \<noteq> []" "\<forall>c\<in>set h. in_class Digit c"
    and "m \<noteq> []" "\<forall>c\<in>set m. in_class Digit c"
    and "s \<noteq> []" "\<forall>c\<in>set s. in_class Digit c"
    and "f \<noteq> []" "\<forall>c\<in>set f. in_class Digit c"
    and "st \<noteq> []" "\<forall>c\<in>set st. in_class DigitOrDot c"
    and "br \<noteq> []" "\<forall>c\<in>set br. in_class DigitOrDot c"
    and "CHR ''D'' \<notin> set pre"
  shows "search containerRegex
           (pre @ ''Duration: '' @ h @ '':'' @ m @ '':'' @ s @ ''.'' @ f @ '', start: '' @ st @
            '', bitrate: '' @ br @ '' kb/s'' @ post)
         = Some [(''bitrate'', br), (''start'', st),
                 (''duration'', h @ '':'' @ m @ '':'' @ s @ ''.'' @ f)]"
proof -
  let ?x = "''Duration: '' @ h @ '':'' @ m @ '':'' @ s @ ''.'' @ f @ '', start: '' @ st @
            '', bitrate: '' @ br @ '' kb/s'' @ post"
  have "search containerRegex (pre @ ?x) = search containerRegex ?x"
    using assms(13) by (intro search_skip) simp_all
  also have "\<dots> = Some [(''bitrate'', br), (''start'', st),
                 (''duration'', h @ '':'' @ m @ '':'' @ s @ ''.'' @ f)]"
    using container_match[OF assms(1-12), of post] by simp
  finally show ?thesis .
qed

section \<open>The duration of the container\<close>

lemma split_on_no_sep: "c \<notin> set xs \<Longrightarrow> split_on c xs = [xs]"
  by (induction xs) auto

lemma split_on_sep: "c \<notin> set xs \<Longrightarrow> split_on c (xs @ c # ys) = xs # split_on c ys"
  by (induction xs) auto

lemma digits_takeWhile:
  assumes "\<forall>c\<in>set ds. isDigit c"
  shows "takeWhile isDigit (ds @ CHR ''.'' # t) = ds"
    and "dropWhile isDigit (ds @ CHR ''.'' # t) = CHR ''.'' # t"
    and "takeWhile isDigit ds = ds" and "dropWhile isDigit ds = []"
proof -
  have "\<not> isDigit CHR ''.''"
    by (simp add: isDigit_def)
  then show "takeWhile isDigit (ds @ CHR ''.'' # t) = ds"
    and "dropWhile isDigit (ds @ CHR ''.'' # t) = CHR ''.'' # t"
    using assms by (simp_all add: takeWhile_append2 dropWhile_append2)
  show "takeWhile isDigit ds = ds" and "dropWhile isDigit ds = []"
    using assms by simp_all
qed

lemma parseFloat_digits:
  assumes "ds \<noteq> []" "\<forall>c\<in>set ds. in_class Digit c"
  shows "parseFloat ds = Finite (real (decimal ds))"
proof -
  have d: "\<forall>c\<in>set ds. isDigit c"
    using assms(2) by (simp add: isDigit_def)
  show ?thesis
    unfolding parseFloat_def Let_def digits_takeWhile(3,4)[OF d]
    using assms(1) by (simp add: decimal_def)
qed

lemma parseFloat_fraction:
  assumes "ds \<noteq> []" "\<forall>c\<in>set ds. in_class Digit c" "\<forall>c\<in>set fs. in_class Digit c"
  shows "parseFloat (ds @ CHR ''.'' # fs)
         = Finite (real (decimal ds) + real (decimal fs) / 10 ^ length fs)"
proof -
  have d: "\<forall>c\<in>set ds. isDigit c" "\<forall>c\<in>set fs. isDigit c"
    using assms(2,3) by (simp_all add: isDigit_def)
  show ?thesis
    unfolding parseFloat_def Let_def digits_takeWhile(1,2)[OF d(1)]
    using assms(1) by (simp add: digits_takeWhile(3)[OF d(2)])
qed

lemma digit_no_colon:
  assumes "\<forall>c\<in>set ds. in_class Digit c"
  shows "CHR '':'' \<notin> set ds"
proof
  assume "CHR '':'' \<in> set ds"
  with assms have "in_class Digit CHR '':''"
    by blast
  then show False
    by simp
qed

text \<open>
  C7. Let \<open>h\<close>, \<open>m\<close>, \<open>s\<close> and \<open>f\<close> be digits, at least one each, and let the message be
  the container line with the duration \<open>h:m:s.f\<close>, after any text without a \<open>D\<close> and
  before any text. Then \<open>parseMetadata\<close> sets the container, and its duration is the
  fold of \<open>acc * 60 + part\<close> over the numbers of the three parts between the colons,
  that is \<open>(h * 60 + m) * 60 + s.f\<close>. Numbers are exact here: the rounding of the fraction
  to binary64 is not part of the statement.
\<close>

theorem parseMetadata_duration:
  assumes "h \<noteq> []" "\<forall>c\<in>set h. in_class Digit c"
    and "m \<noteq> []" "\<forall>c\<in>set m. in_class Digit c"
    and "s \<noteq> []" "\<forall>c\<in>set s. in_class Digit c"
    and "f \<noteq> []" "\<forall>c\<in>set f. in_class Digit c"
    and "st \<noteq> []" "\<forall>c\<in>set st. in_class DigitOrDot c"
    and "br \<noteq> []" "\<forall>c\<in>set br. in_class DigitOrDot c"
    and "CHR ''D'' \<notin> set pre"
  shows "parseMetadata
           (pre @ ''Duration: '' @ h @ '':'' @ m @ '':'' @ s @ ''.'' @ f @ '', start: '' @ st @
            '', bitrate: '' @ br @ '' kb/s'' @ post) metadata
         = Inr (metadata\<lparr>container_p := Some
                  \<lparr>duration = foldl (\<lambda>a b. jadd (jmul a (Finite 60)) b) (parseFloat h)
                                [parseFloat m, parseFloat (s @ ''.'' @ f)],
                   start = parseFloat st\<rparr>\<rparr>) \<and>
         split_on CHR '':'' (h @ '':'' @ m @ '':'' @ s @ ''.'' @ f) = [h, m, s @ ''.'' @ f] \<and>
         foldl (\<lambda>a b. jadd (jmul a (Finite 60)) b) (parseFloat h)
           [parseFloat m, parseFloat (s @ ''.'' @ f)]
         = Finite ((real (decimal h) * 60 + real (decimal m)) * 60 +
                   (real (decimal s) + real (decimal f) / 10 ^ length f))"
proof -
  have sp: "split_on CHR '':'' (h @ '':'' @ m @ '':'' @ s @ ''.'' @ f) = [h, m, s @ ''.'' @ f]"
  proof -
    have "CHR '':'' \<notin> set (s @ ''.'' @ f)"
      using digit_no_colon[OF assms(6)] digit_no_colon[OF assms(8)] by simp
    then show ?thesis
      using digit_no_colon[OF assms(2)] digit_no_colon[OF assms(4)]
      by (simp add: split_on_sep split_on_no_sep)
  qed
  have "parseMetadata
           (pre @ ''Duration: '' @ h @ '':'' @ m @ '':'' @ s @ ''.'' @ f @ '', start: '' @ st @
            '', bitrate: '' @ br @ '' kb/s'' @ post) metadata
         = Inr (metadata\<lparr>container_p := Some
                  \<lparr>duration = foldl (\<lambda>a b. jadd (jmul a (Finite 60)) b) (parseFloat h)
                                [parseFloat m, parseFloat (s @ ''.'' @ f)],
                   start = parseFloat st\<rparr>\<rparr>)"
    unfolding parseMetadata_def container_search[OF assms, of post]
    by (simp add: named_group_def reduce_def sp[simplified] del: foldl.simps)
  moreover have "foldl (\<lambda>a b. jadd (jmul a (Finite 60)) b) (parseFloat h)
           [parseFloat m, parseFloat (s @ ''.'' @ f)]
         = Finite ((real (decimal h) * 60 + real (decimal m)) * 60 +
                   (real (decimal s) + real (decimal f) / 10 ^ length f))"
    using parseFloat_digits[OF assms(1,2)] parseFloat_digits[OF assms(3,4)]
      parseFloat_fraction[OF assms(5,6,8)]
    by simp
  ultimately show ?thesis
    using sp by blast
qed

text \<open>
  The line of the example, with the duration \<open>00:02:03.45\<close>: the duration of the container
  is 123.45.
\<close>

theorem parseMetadata_duration_example:
  "parseMetadata ''Duration: 00:02:03.45, start: 0.000000, bitrate: 4128 kb/s''
     \<lparr>container_p = None, video_p = None, audio_p = None\<rparr>
   = Inr \<lparr>container_p = Some \<lparr>duration = Finite (12345 / 100), start = Finite 0\<rparr>,
          video_p = None, audio_p = None\<rparr>"
  using parseMetadata_duration [of "''00''" "''02''" "''03''" "''45''" "''0.000000''" "''4128''"
      "[]" "[]" "\<lparr>container_p = None, video_p = None, audio_p = None\<rparr>"]
  by (simp add: parseFloat_def isDigit_def decimal_def digitValue_def)

section \<open>A source without sound\<close>

lemma log_example_container:
  "search containerRegex ''  Duration: 00:00:10.00, start: 0.000000, bitrate: 520 kb/s''
   = Some [(''bitrate'', ''520''), (''start'', ''0.000000''), (''duration'', ''00:00:10.00'')]"
  by code_simp

lemma log_example_video:
  "search containerRegex ''    Stream #0:0(und): Video: h264 (Main) (avc1 / 0x31637661), yuv420p, 640x480 [SAR 1:1 DAR 4:3], 500 kb/s, 30 fps, 30 tbr, 15360 tbn, 60 tbc (default)'' = None"
  "search videoRegex ''    Stream #0:0(und): Video: h264 (Main) (avc1 / 0x31637661), yuv420p, 640x480 [SAR 1:1 DAR 4:3], 500 kb/s, 30 fps, 30 tbr, 15360 tbn, 60 tbc (default)''
   = Some [(''tbr'', ''30''), (''fps'', ''30''), (''bitrate'', ''500''), (''height'', ''480''),
           (''width'', ''640''), (''color'', ''yuv420p''), (''codec'', ''h264 (Main)'')]"
  by code_simp+

lemma log_example_parsed:
  "parseMessages log_example \<lparr>container_p = None, video_p = None, audio_p = None\<rparr>
   = Inr \<lparr>container_p = Some (container source_small), video_p = Some (video source_small),
          audio_p = None\<rparr>"
  unfolding log_example_def
  by (simp add: parseMetadata_def log_example_container log_example_video named_group_def
      reduce_def parseFloat_def isDigit_def decimal_def digitValue_def jmax_def source_small_def
      del: search.simps)



text \<open>
  C10. \<open>getAudioFormats\<close> returns a list exactly for the sources that carry an audio
  record; for a source without one the read of \<open>source.audio.codec\<close> is a \<open>TypeError\<close>,
  and the only way to say that there is no sound is an audio record with the codec
  \<open>none\<close>, which gives the single option without sound. The analysis makes sources
  without an audio record: an accumulator with a container and a video stream and without
  an audio stream passes its last test and becomes such a source.
\<close>

theorem getAudioFormats_needs_audio:
  "((\<exists>options. getAudioFormats source = Inr options) \<longleftrightarrow> audio source \<noteq> None) \<and>
   (audio source = None \<longrightarrow> getAudioFormats source = Inl TypeError) \<and>
   (audio source = Some a \<and> codec_a a = ''none'' \<longrightarrow>
      (\<exists>option. getAudioFormats source = Inr [option] \<and> codec_a option = ''none'')) \<and>
   (container_p metadata = Some c \<and> video_p metadata = Some v \<and> audio_p metadata = None \<longrightarrow>
      finishAnalysis metadata = Inr \<lparr>container = c, video = v, audio = None\<rparr>)"
  by (auto simp: getAudioFormats_def finishAnalysis_def Let_def split: option.splits)

text \<open>
  The log of the file without sound is analysed without an error, and \<open>getAudioFormats\<close>
  fails on the source that comes out.
\<close>

theorem getAudioFormats_needs_audio_witness:
  "analyzeVideo log_example = Inr source_small \<and> audio source_small = None \<and>
   getAudioFormats source_small = Inl TypeError"
proof -
  have a: "audio source_small = None"
    by (simp add: source_small_def)
  have "analyzeVideo log_example = Inr \<lparr>container = container source_small,
          video = video source_small, audio = None\<rparr>"
    using getAudioFormats_needs_audio [where source = source_small
        and metadata = "\<lparr>container_p = Some (container source_small),
          video_p = Some (video source_small), audio_p = None\<rparr>"
        and c = "container source_small" and v = "video source_small"]
    by (simp add: analyzeVideo_def log_example_parsed)
  moreover have "\<lparr>container = container source_small,
          video = video source_small, audio = None\<rparr> = source_small"
    by (simp add: source_small_def)
  moreover have "getAudioFormats source_small = Inl TypeError"
    using getAudioFormats_needs_audio [of source_small] a by blast
  ultimately show ?thesis
    using a by simp
qed

end
